theory Spec2Isabelle
  imports Main
begin

section \<open>The virtual repeat of src/src/virtual-repeat.ts\<close>

text \<open>
  A shallow embedding of the class \<open>VirtualRepeat\<close>. The repeat's fields are a
  record, the scheduled callbacks (micro tasks of the task queue, animation frame
  callbacks, continuations of promises) are data in an explicit world, and every
  \<open>throw\<close> of the source is a value of a sum type. Indices are JavaScript numbers
  holding integers, modelled as \<open>int\<close>; pixel quantities are modelled as \<open>int\<close>
  as well. DOM elements are not modelled: what the code reads from them is a field
  of the view or an argument of the function.
\<close>

subsection \<open>Data\<close>

datatype error =
    TypeError               \<comment> \<open>a property read on \<open>null\<close> or \<open>undefined\<close>\<close>
  | NotIterable             \<comment> \<open>\<open>Value is not iterateable for virtual repeat.\<close>\<close>
  | NotAFunction            \<comment> \<open>\<open>'infinite-scroll-next' must be a function or evaluate to one\<close>\<close>

text \<open>The bound \<open>items\<close>: a falsy value, an array, or some other truthy value.\<close>

datatype source = SrcNull | SrcArray "nat list" | SrcOther

fun truthy :: "source \<Rightarrow> bool" where
  "truthy SrcNull = False"
| "truthy (SrcArray xs) = True"
| "truthy SrcOther = True"

text \<open>What a handler named by \<open>infinite-scroll-next\<close> returns: a promise or not.\<close>

datatype call_result = Plain | Deferred nat

datatype js_value =
    JSUndefined
  | JSFunction "int \<Rightarrow> bool \<Rightarrow> bool \<Rightarrow> call_result"
  | JSOther

text \<open>
  The value of \<open>instruction.attributes['infinite-scroll-next']\<close>: a string, or a
  binding expression that may carry a \<open>sourceExpression\<close> (an expression id).
\<close>

datatype attr_value = AttrString | AttrBinding "nat option"

record scroll_context =
  ctx_topIndex :: int
  ctx_isAtBottom :: bool
  ctx_isAtTop :: bool

record scope =
  bindingContext :: "string \<Rightarrow> js_value"
  scrollContext :: "scroll_context option"      \<comment> \<open>\<open>overrideContext.$scrollContext\<close>\<close>

text \<open>
  A view: its identity, \<open>overrideContext.$index\<close>, and what \<open>_getMore\<close> reads from
  its first child: the attribute value of the instruction (\<open>None\<close> when any link of
  \<open>firstChild.au['infinite-scroll-next']\<close> is missing) and \<open>getAttribute\<close>.
\<close>

record view =
  view_id :: nat
  view_index :: int
  scroll_next_instruction :: "attr_value option"
  scroll_next_attribute :: "string option"

record scroller_info =
  scrollHeight :: int
  scrollTop :: int
  height :: int

datatype call_context = HandleCollectionMutated | HandleInnerCollectionMutated

record repeat =
  first :: int
  viewsLength :: int
  topBufferHeight :: int
  bottomBufferHeight :: int
  isAttached :: bool
  ticking :: bool
  fixedHeightContainer :: bool
  isAtTop :: bool
  calledGetMore :: bool
  skipNextScrollHandle :: bool
  handlingMutations :: bool
  ignoreMutation :: bool
  isOneTime :: bool
  items :: source
  scope :: "scope option"
  children :: "view list"                        \<comment> \<open>\<open>viewSlot.children\<close>\<close>
  itemHeight :: int
  distanceToTop :: int
  elementsInView :: int
  edgeDistance :: int
  currScrollerInfo :: scroller_info
  prevScrollerInfo :: scroller_info
  strategy :: "nat option"                       \<comment> \<open>a reference to the strategy object\<close>
  collectionObserver :: "call_context option"    \<comment> \<open>the subscription, with \<open>callContext\<close>\<close>
  scrollListener :: bool
  scrollerObserved :: bool
  sizeInterval :: bool
  calcDistanceToTopInterval :: bool

subsection \<open>Views of the slot\<close>

definition viewCount :: "repeat \<Rightarrow> int" where
  "viewCount r = int (length (children r))"

definition view :: "repeat \<Rightarrow> int \<Rightarrow> view option" where
  "view r i =
     (if i < 0 \<or> i > int (length (children r)) - 1 then None
      else Some (children r ! nat i))"

definition firstView :: "repeat \<Rightarrow> view option" where
  "firstView r = view r 0"

definition lastView :: "repeat \<Rightarrow> view option" where
  "lastView r = view r (viewCount r - 1)"

definition firstViewIndex :: "repeat \<Rightarrow> int" where
  "firstViewIndex r = (case firstView r of None \<Rightarrow> - 1 | Some v \<Rightarrow> view_index v)"

definition lastViewIndex :: "repeat \<Rightarrow> int" where
  "lastViewIndex r = (case lastView r of None \<Rightarrow> - 1 | Some v \<Rightarrow> view_index v)"

subsection \<open>The world around the repeat\<close>

text \<open>
  A call either returns or throws; a throw keeps the state reached when it happens,
  since the mutations made before it persist.
\<close>

datatype 'a outcome = Returned 'a | Thrown error 'a

text \<open>
  The callbacks the class schedules: the closure of \<open>_onScroll\<close> with the two
  snapshots it captured and the closure of \<open>handleInnerCollectionMutated\<close> (micro
  tasks), \<open>executeGetMore\<close> with the arguments of \<open>_getMore\<close> it captured and
  \<open>revertScrollCheckGuard\<close> (animation frame callbacks).
\<close>

datatype micro_task = ScrollTask scroller_info scroller_info | ResetIgnoreMutation

datatype frame_task = ExecuteGetMore int bool bool | RevertScrollCheckGuard

text \<open>
  What reaches the user's handler: a call of the named function with its three
  positional arguments, or an evaluation of the bound expression; each with the
  \<open>$scrollContext\<close> the override context holds at that moment.
\<close>

datatype invocation =
    FunctionCall string int bool bool "scroll_context option"
  | ExpressionEval nat "scroll_context option"

record world =
  rep :: repeat
  microTasks :: "micro_task list"
  frames :: "frame_task list"
  console :: "string list"
  calls :: "invocation list"
  thens :: "nat list"       \<comment> \<open>promises whose \<open>then\<close> callback waits\<close>

text \<open>
  The strategy object \<open>this.strategy\<close> (interface \<open>IVirtualRepeatStrategy\<close>; its
  implementations are not under src/) is a parameter: the repeat holds a reference,
  and a registry gives the methods behind a reference, the ones scroll handling
  calls and the ones collection handling calls. A method reads and updates the
  repeat it is given.
\<close>

record scroll_strategy =
  getViewRange :: "repeat \<Rightarrow> scroller_info \<Rightarrow> int \<times> int"
  isNearBottom :: "repeat \<Rightarrow> int \<Rightarrow> bool"
  isNearTop :: "repeat \<Rightarrow> int \<Rightarrow> bool"
  remeasure :: "repeat \<Rightarrow> repeat"
  updateBuffers :: "repeat \<Rightarrow> int \<Rightarrow> repeat"

text \<open>
  \<open>VirtualizationCalculation\<close> (a bit mask declared in interfaces.ts, not under
  src/) is read through its three flags.
\<close>

record calculation_signals =
  sig_reset :: bool
  sig_has_sizing :: bool
  sig_observe_scroller :: bool

type_synonym splice = "nat \<times> nat \<times> nat"

record collection_strategy =
  getCollectionObserver :: "source \<Rightarrow> bool"
  initCalculation :: "repeat \<Rightarrow> source \<Rightarrow> calculation_signals \<times> repeat"
  instanceChanged :: "repeat \<Rightarrow> source \<Rightarrow> int \<Rightarrow> repeat"
  instanceMutated :: "repeat \<Rightarrow> source \<Rightarrow> splice list \<Rightarrow> repeat"

subsection \<open>Moving views\<close>

text \<open>
  Modelled from the spec: \<open>rebindAndMoveView\<close> of utilities.ts is not under src/.
  The spec has the controller move a view from the head of the rendered set to the
  tail (or from the tail to the head), rebinding it to its new index; the view is
  the one \<open>_moveViews\<close> passes, the first or the last of the slot. A \<open>null\<close> view
  has no override context to rebind: the read throws.
\<close>

definition rebindAndMoveView :: "repeat \<Rightarrow> view option \<Rightarrow> int \<Rightarrow> bool \<Rightarrow> repeat outcome" where
  "rebindAndMoveView r vw i moveToBottom =
     (case vw of
        None \<Rightarrow> Thrown TypeError r
      | Some v \<Rightarrow>
          (if moveToBottom
           then Returned (r\<lparr>children := tl (children r) @ [v\<lparr>view_index := i\<rparr>]\<rparr>)
           else Returned (r\<lparr>children := v\<lparr>view_index := i\<rparr> # butlast (children r)\<rparr>)))"

text \<open>
  The two loops of \<open>_moveViews\<close>, \<open>while (viewsCount--)\<close>: the test reads the
  count before the decrement, so a negative count never ends the loop (\<open>None\<close>).
\<close>

partial_function (option) moveViewsUp :: "repeat \<Rightarrow> int \<Rightarrow> int \<Rightarrow> repeat outcome option" where
  "moveViewsUp r viewsCount startIndex =
     (if viewsCount = 0 then Some (Returned r)
      else (case rebindAndMoveView r (lastView r) (startIndex - 1) False of
              Thrown e r' \<Rightarrow> Some (Thrown e r')
            | Returned r' \<Rightarrow> moveViewsUp r' (viewsCount - 1) (startIndex - 1)))"

partial_function (option) moveViewsDown :: "repeat \<Rightarrow> int \<Rightarrow> int \<Rightarrow> repeat outcome option" where
  "moveViewsDown r viewsCount lastIndex =
     (if viewsCount = 0 then Some (Returned r)
      else (case rebindAndMoveView r (view r 0) (lastIndex + 1) True of
              Thrown e r' \<Rightarrow> Some (Thrown e r')
            | Returned r' \<Rightarrow> moveViewsDown r' (viewsCount - 1) (lastIndex + 1)))"

datatype direction = Up | Down

definition moveViews :: "repeat \<Rightarrow> int \<Rightarrow> direction \<Rightarrow> repeat outcome option" where
  "moveViews r viewsCount dir =
     (case dir of
        Up \<Rightarrow> moveViewsUp r viewsCount (firstViewIndex r)
      | Down \<Rightarrow> moveViewsDown r viewsCount (lastViewIndex r))"

subsection \<open>Asking for more items\<close>

definition getMore :: "world \<Rightarrow> int \<Rightarrow> bool \<Rightarrow> bool \<Rightarrow> bool \<Rightarrow> world" where
  "getMore w topIndex nearTop nearBottom force =
     (if nearTop \<or> nearBottom \<or> force then
        (if \<not> calledGetMore (rep w)
         then w\<lparr>frames := frames w @ [ExecuteGetMore topIndex nearTop nearBottom]\<rparr>
         else w)
      else w)"

text \<open>
  The closure \<open>executeGetMore\<close>, run by the animation frame. \<open>bindingContext[name]\<close>
  with the \<open>null\<close> that \<open>getAttribute\<close> gives for a missing attribute reads the
  property called \<open>null\<close>. The handler's own effects are outside the class: the
  model records the invocation and takes what the handler returns from its value.
\<close>

definition executeGetMore :: "world \<Rightarrow> int \<Rightarrow> bool \<Rightarrow> bool \<Rightarrow> world outcome" where
  "executeGetMore w topIndex nearTop nearBottom =
     (let w1 = w\<lparr>rep := (rep w)\<lparr>calledGetMore := True\<rparr>\<rparr>;
          fv = firstView (rep w1);
          func = (case fv of None \<Rightarrow> None | Some v \<Rightarrow> scroll_next_instruction v)
      in case func of
           None \<Rightarrow> Returned (w1\<lparr>rep := (rep w1)\<lparr>calledGetMore := False\<rparr>\<rparr>)
         | Some f \<Rightarrow>
             (case scope (rep w1) of
                None \<Rightarrow> Thrown TypeError w1
              | Some sc \<Rightarrow>
                  (let ctx = \<lparr>ctx_topIndex = topIndex, ctx_isAtBottom = nearBottom,
                               ctx_isAtTop = nearTop\<rparr>;
                       sc' = sc\<lparr>scrollContext := Some ctx\<rparr>;
                       w2 = w1\<lparr>rep := (rep w1)\<lparr>scope := Some sc'\<rparr>\<rparr>
                   in case f of
                        AttrString \<Rightarrow>
                          (let getMoreFuncName =
                                 (case fv of
                                    None \<Rightarrow> ''null''
                                  | Some v \<Rightarrow>
                                      (case scroll_next_attribute v of
                                         None \<Rightarrow> ''null'' | Some n \<Rightarrow> n))
                           in case bindingContext sc' getMoreFuncName of
                                JSFunction funcCall \<Rightarrow>
                                  (let w3 = w2\<lparr>calls := calls w2 @
                                              [FunctionCall getMoreFuncName topIndex nearBottom
                                                 nearTop (scrollContext sc')]\<rparr>
                                   in case funcCall topIndex nearBottom nearTop of
                                        Plain \<Rightarrow>
                                          Returned (w3\<lparr>rep := (rep w3)\<lparr>calledGetMore := False\<rparr>\<rparr>)
                                      | Deferred p \<Rightarrow>
                                          Returned (w3\<lparr>thens := thens w3 @ [p]\<rparr>))
                              | JSUndefined \<Rightarrow> Thrown NotAFunction w2
                              | JSOther \<Rightarrow> Thrown NotAFunction w2)
                      | AttrBinding (Some e) \<Rightarrow>
                          (let w3 = w2\<lparr>rep := (rep w2)\<lparr>calledGetMore := False\<rparr>\<rparr>
                           in Returned (w3\<lparr>calls := calls w3 @
                                [ExpressionEval e
                                   (case scope (rep w3) of
                                      None \<Rightarrow> None | Some s \<Rightarrow> scrollContext s)]\<rparr>))
                      | AttrBinding None \<Rightarrow> Thrown NotAFunction w2)))"

text \<open>
  The callback \<open>result.then(() => { this._calledGetMore = false })\<close>, run when
  the promise completes.
\<close>

definition promiseCompleted :: "world \<Rightarrow> nat \<Rightarrow> world" where
  "promiseCompleted w p =
     (if p \<in> set (thens w)
      then w\<lparr>rep := (rep w)\<lparr>calledGetMore := False\<rparr>, thens := removeAll p (thens w)\<rparr>
      else w)"

subsection \<open>Handling a scroll\<close>

definition handleScroll ::
  "(nat \<Rightarrow> scroll_strategy) \<Rightarrow> world \<Rightarrow> scroller_info \<Rightarrow> scroller_info \<Rightarrow> world outcome option" where
  "handleScroll impl w currentScrollerInfo prevInfo =
     (if \<not> isAttached (rep w) then Some (Returned w)
      else if skipNextScrollHandle (rep w)
        then Some (Returned (w\<lparr>rep := (rep w)\<lparr>skipNextScrollHandle := False\<rparr>\<rparr>))
      else if \<not> truthy (items (rep w)) then Some (Returned w)
      else
        (case strategy (rep w) of
           None \<Rightarrow> Some (Thrown TypeError w)
         | Some k \<Rightarrow>
            (let strat = impl k;
                 r = rep w;
                 old_start = first r;
                 old_end = lastViewIndex r;
                 range = getViewRange strat r currentScrollerInfo;
                 new_start = fst range;
                 new_end = snd range;
                 branch =
                   (if (new_start \<ge> old_start \<and> old_end = new_end)
                        \<or> (new_end = old_end \<and> old_end \<ge> new_end)
                    then
                      Some (Returned (w, 0 :: int,
                        (if new_start \<ge> old_start \<and> old_end = new_end
                         then (if isNearBottom strat r new_end then 1 else 0)
                         else if isNearTop strat r new_start then - 1 else (0 :: int))))
                    else if new_start > old_start \<and> old_end \<ge> new_start \<and> new_end \<ge> old_end
                    then
                      (case moveViews r (new_start - old_start) Down of
                         None \<Rightarrow> None
                       | Some (Thrown e r') \<Rightarrow> Some (Thrown e (w\<lparr>rep := r'\<rparr>, 0, 0))
                       | Some (Returned r') \<Rightarrow> Some (Returned (w\<lparr>rep := r'\<rparr>, 1, 1)))
                    else if old_start > new_start \<and> old_start \<le> new_end \<and> old_end \<ge> new_end
                    then
                      (case moveViews r (old_end - new_end) Up of
                         None \<Rightarrow> None
                       | Some (Thrown e r') \<Rightarrow> Some (Thrown e (w\<lparr>rep := r'\<rparr>, 0, 0))
                       | Some (Returned r') \<Rightarrow> Some (Returned (w\<lparr>rep := r'\<rparr>, 1, - 1)))
                    else if old_end < new_start \<or> old_start > new_end
                    then
                      (let r' = remeasure strat r
                       in Some (Returned (w\<lparr>rep := r'\<rparr>, 0,
                            (if old_end < new_start
                             then (if isNearBottom strat r' new_end then 1 else 0)
                             else if isNearTop strat r' new_start then - 1 else 0))))
                    else
                      (let w' = w\<lparr>console := console w @ [''Scroll intersection not handled'']\<rparr>
                       in Some (Returned (w'\<lparr>rep := remeasure strat (rep w')\<rparr>, 0, 0))))
             in case branch of
                  None \<Rightarrow> None
                | Some (Thrown e (w1, didMovedViews, should_call_scroll_next)) \<Rightarrow>
                    Some (Thrown e w1)
                | Some (Returned (w1, didMovedViews, should_call_scroll_next)) \<Rightarrow>
                    (let w2 = (if didMovedViews = 1
                               then w1\<lparr>rep := updateBuffers strat
                                                ((rep w1)\<lparr>first := new_start\<rparr>) new_start\<rparr>
                               else w1)
                     in Some (Returned
                          (if should_call_scroll_next \<noteq> 0
                           then getMore w2 new_start (isNearTop strat (rep w2) new_start)
                                  (isNearBottom strat (rep w2) new_end) False
                           else w2))))))"

text \<open>
  \<open>_onScroll\<close>; its argument is what \<open>getScrollerInfo()\<close> reads from the scroller
  when the event arrives.
\<close>

definition onScroll :: "world \<Rightarrow> scroller_info \<Rightarrow> world" where
  "onScroll w currentScrollerInfo =
     (let isHandlingMutations = handlingMutations (rep w);
          w1 = (if \<not> ticking (rep w) \<and> \<not> isHandlingMutations
                then w\<lparr>rep := (rep w)\<lparr>currScrollerInfo := currentScrollerInfo, ticking := True\<rparr>,
                       microTasks := microTasks w @
                         [ScrollTask currentScrollerInfo (currScrollerInfo (rep w))]\<rparr>
                else w)
      in if isHandlingMutations
         then w1\<lparr>rep := (rep w1)\<lparr>handlingMutations := False\<rparr>\<rparr>
         else w1)"

definition runMicroTask ::
  "(nat \<Rightarrow> scroll_strategy) \<Rightarrow> world \<Rightarrow> micro_task \<Rightarrow> world outcome option" where
  "runMicroTask impl w t =
     (case t of
        ScrollTask currentScrollerInfo prevInfo \<Rightarrow>
          (case handleScroll impl w currentScrollerInfo prevInfo of
             None \<Rightarrow> None
           | Some (Thrown e w') \<Rightarrow> Some (Thrown e w')
           | Some (Returned w') \<Rightarrow> Some (Returned (w'\<lparr>rep := (rep w')\<lparr>ticking := False\<rparr>\<rparr>)))
      | ResetIgnoreMutation \<Rightarrow> Some (Returned (w\<lparr>rep := (rep w)\<lparr>ignoreMutation := False\<rparr>\<rparr>)))"

definition runFrameTask :: "world \<Rightarrow> frame_task \<Rightarrow> world outcome" where
  "runFrameTask w t =
     (case t of
        ExecuteGetMore topIndex nearTop nearBottom \<Rightarrow> executeGetMore w topIndex nearTop nearBottom
      | RevertScrollCheckGuard \<Rightarrow> Returned (w\<lparr>rep := (rep w)\<lparr>ticking := False\<rparr>\<rparr>))"

subsection \<open>Collection changes, reset and detach\<close>

definition handleCollectionMutated ::
  "(nat \<Rightarrow> collection_strategy) \<Rightarrow> world \<Rightarrow> source \<Rightarrow> splice list \<Rightarrow> world outcome" where
  "handleCollectionMutated cimpl w collection changes =
     (if ignoreMutation (rep w) then Returned w
      else
        (let w1 = w\<lparr>rep := (rep w)\<lparr>handlingMutations := True\<rparr>\<rparr>
         in case strategy (rep w1) of
              None \<Rightarrow> Thrown TypeError w1
            | Some k \<Rightarrow>
                Returned (w1\<lparr>rep := instanceMutated (cimpl k) (rep w1) collection changes\<rparr>)))"

text \<open>The heights written to the two buffer elements are not modelled.\<close>

definition updateBufferElements :: "world \<Rightarrow> bool \<Rightarrow> world" where
  "updateBufferElements w skipUpdate =
     (if skipUpdate
      then w\<lparr>rep := (rep w)\<lparr>ticking := True\<rparr>, frames := frames w @ [RevertScrollCheckGuard]\<rparr>
      else w)"

definition resetCalculation :: "world \<Rightarrow> world" where
  "resetCalculation w =
     updateBufferElements
       (w\<lparr>rep := (rep w)\<lparr>first := 0, viewsLength := 0, topBufferHeight := 0,
                          bottomBufferHeight := 0, itemHeight := 0, elementsInView := 0,
                          ignoreMutation := False, handlingMutations := False,
                          ticking := False, isAtTop := True\<rparr>\<rparr>)
       True"

definition unsubscribeCollection :: "world \<Rightarrow> world" where
  "unsubscribeCollection w =
     (case collectionObserver (rep w) of
        None \<Rightarrow> w
      | Some c \<Rightarrow> w\<lparr>rep := (rep w)\<lparr>collectionObserver := None\<rparr>\<rparr>)"

definition unobserveScrollerSize :: "world \<Rightarrow> world" where
  "unobserveScrollerSize w = w\<lparr>rep := (rep w)\<lparr>scrollerObserved := False\<rparr>\<rparr>"

definition removeAllViews :: "world \<Rightarrow> world" where
  "removeAllViews w = w\<lparr>rep := (rep w)\<lparr>children := []\<rparr>\<rparr>"

definition detached :: "world \<Rightarrow> world" where
  "detached w =
     (let w1 = w\<lparr>rep := (rep w)\<lparr>scrollListener := False\<rparr>\<rparr>;
          w2 = unobserveScrollerSize w1;
          w3 = w2\<lparr>rep := (rep w2)\<lparr>isAttached := False, fixedHeightContainer := False\<rparr>\<rparr>;
          w4 = unsubscribeCollection w3;
          w5 = resetCalculation w4;
          w6 = removeAllViews w5
      in w6\<lparr>rep := (rep w6)\<lparr>distanceToTop := 0, sizeInterval := False,
                               calcDistanceToTopInterval := False\<rparr>\<rparr>)"

subsection \<open>A new source\<close>

text \<open>
  \<open>_observeInnerCollection\<close>; \<open>inner\<close> is what \<open>_getInnerCollection()\<close> evaluates to
  (\<open>null\<close> when the source expression wraps nothing). The strategy locator is a
  parameter: it gives a reference to a strategy, or \<open>null\<close>.
\<close>

definition observeInnerCollection ::
  "(source \<Rightarrow> nat option) \<Rightarrow> (nat \<Rightarrow> collection_strategy) \<Rightarrow> source \<Rightarrow> world \<Rightarrow> bool \<times> world" where
  "observeInnerCollection loc cimpl inner w =
     (case loc inner of
        None \<Rightarrow> (False, w)
      | Some k \<Rightarrow>
          (if \<not> getCollectionObserver (cimpl k) inner then (False, w)
           else (True, w\<lparr>rep := (rep w)\<lparr>collectionObserver :=
                                    Some HandleInnerCollectionMutated\<rparr>\<rparr>)))"

definition observeCollection :: "(nat \<Rightarrow> collection_strategy) \<Rightarrow> world \<Rightarrow> world outcome" where
  "observeCollection cimpl w =
     (case strategy (rep w) of
        None \<Rightarrow> Thrown TypeError w
      | Some k \<Rightarrow>
          (if getCollectionObserver (cimpl k) (items (rep w))
           then Returned (w\<lparr>rep := (rep w)\<lparr>collectionObserver := Some HandleCollectionMutated\<rparr>\<rparr>)
           else Returned w))"

definition observeScroller :: "world \<Rightarrow> world" where
  "observeScroller w = w\<lparr>rep := (rep w)\<lparr>scrollerObserved := True\<rparr>\<rparr>"

definition itemsChanged ::
  "(source \<Rightarrow> nat option) \<Rightarrow> (nat \<Rightarrow> collection_strategy) \<Rightarrow> source \<Rightarrow> world \<Rightarrow> world outcome" where
  "itemsChanged loc cimpl inner w =
     (let w1 = unsubscribeCollection w
      in if scope (rep w1) = None \<or> \<not> isAttached (rep w1) then Returned w1
         else
           (let w2 = w1\<lparr>rep := (rep w1)\<lparr>strategy := loc (items (rep w1))\<rparr>\<rparr>
            in case strategy (rep w2) of
                 None \<Rightarrow> Thrown NotIterable w2
               | Some k \<Rightarrow>
                   (let observed =
                          (if isOneTime (rep w2) then Returned w2
                           else (case observeInnerCollection loc cimpl inner w2 of
                                   (True, w') \<Rightarrow> Returned w'
                                 | (False, w') \<Rightarrow> observeCollection cimpl w'))
                    in case observed of
                         Thrown e w' \<Rightarrow> Thrown e w'
                       | Returned w3 \<Rightarrow>
                           (let calc = initCalculation (cimpl k) (rep w3) (items (rep w2));
                                calculationSignals = fst calc;
                                r4 = instanceChanged (cimpl k) (snd calc) (items (rep w2))
                                       (first (snd calc));
                                w4 = w3\<lparr>rep := r4\<rparr>;
                                w5 = (if sig_reset calculationSignals
                                      then resetCalculation w4 else w4);
                                w6 = (if \<not> sig_has_sizing calculationSignals
                                      then w5\<lparr>rep := (rep w5)\<lparr>sizeInterval := True\<rparr>\<rparr>
                                      else w5)
                            in Returned (if sig_observe_scroller calculationSignals
                                         then observeScroller w6 else w6)))))"

subsection \<open>The strategy of the spec\<close>

text \<open>
  Modelled from the spec: the implementations of \<open>IVirtualRepeatStrategy\<close> are not
  under src/. Section 4.2 of the spec gives the visible range as
  \<open>start = floor(scrollTop / itemHeight)\<close> clamped to
  \<open>[0, itemCount - minimumViewsToFillViewport]\<close> and
  \<open>end = start + minimumViewsToFillViewport - 1\<close> clamped to \<open>itemCount - 1\<close>, an
  index as near the top when \<open>index \<le> edgeThreshold\<close> and near the bottom when
  \<open>index \<ge> itemCount - 1 - edgeThreshold\<close>; section 3 gives the buffer heights as
  \<open>firstIndex * itemHeight\<close> and \<open>max(0, itemCount - firstIndex - length) * itemHeight\<close>;
  remeasuring derives the visible range again and rebuilds the rendered views at
  that range. It is used at concrete inputs only, where \<open>itemHeight\<close> is positive.
\<close>

definition spec_itemCount :: "repeat \<Rightarrow> int" where
  "spec_itemCount r = (case items r of SrcArray xs \<Rightarrow> int (length xs) | _ \<Rightarrow> 0)"

definition spec_visibleRange :: "repeat \<Rightarrow> scroller_info \<Rightarrow> int \<times> int" where
  "spec_visibleRange r info =
     (let start = max 0 (min (spec_itemCount r - elementsInView r)
                             (scrollTop info div itemHeight r))
      in (start, min (start + elementsInView r - 1) (spec_itemCount r - 1)))"

definition spec_isNearTop :: "repeat \<Rightarrow> int \<Rightarrow> bool" where
  "spec_isNearTop r i = (i \<le> edgeDistance r)"

definition spec_isNearBottom :: "repeat \<Rightarrow> int \<Rightarrow> bool" where
  "spec_isNearBottom r i = (i \<ge> spec_itemCount r - 1 - edgeDistance r)"

definition spec_updateBuffers :: "repeat \<Rightarrow> int \<Rightarrow> repeat" where
  "spec_updateBuffers r firstIndex =
     r\<lparr>topBufferHeight := firstIndex * itemHeight r,
       bottomBufferHeight :=
         max 0 (spec_itemCount r - firstIndex - viewsLength r) * itemHeight r\<rparr>"

definition spec_remeasure :: "repeat \<Rightarrow> repeat" where
  "spec_remeasure r =
     (let start = fst (spec_visibleRange r (currScrollerInfo r))
      in spec_updateBuffers
           (r\<lparr>first := start,
              children := map2 (\<lambda>v k. v\<lparr>view_index := start + int k\<rparr>)
                            (children r) [0..<length (children r)]\<rparr>)
           start)"

definition spec_strategy :: scroll_strategy where
  "spec_strategy =
     \<lparr>getViewRange = spec_visibleRange, isNearBottom = spec_isNearBottom,
      isNearTop = spec_isNearTop, remeasure = spec_remeasure,
      updateBuffers = spec_updateBuffers\<rparr>"

subsection \<open>The environment: micro tasks and animation frames\<close>

text \<open>
  The task queue runs the queued micro tasks in order; an animation frame runs the
  callbacks requested before it, in order, and an exception of a callback is
  reported without stopping the others.
\<close>

fun runMicroTasks ::
  "(nat \<Rightarrow> scroll_strategy) \<Rightarrow> world \<Rightarrow> micro_task list \<Rightarrow> world outcome option" where
  "runMicroTasks impl w [] = Some (Returned w)"
| "runMicroTasks impl w (t # ts) =
     (case runMicroTask impl w t of
        None \<Rightarrow> None
      | Some (Thrown e w') \<Rightarrow> Some (Thrown e w')
      | Some (Returned w') \<Rightarrow> runMicroTasks impl w' ts)"

definition flushMicroTasks :: "(nat \<Rightarrow> scroll_strategy) \<Rightarrow> world \<Rightarrow> world outcome option" where
  "flushMicroTasks impl w = runMicroTasks impl (w\<lparr>microTasks := []\<rparr>) (microTasks w)"

fun runFrameTasks :: "world \<Rightarrow> frame_task list \<Rightarrow> world" where
  "runFrameTasks w [] = w"
| "runFrameTasks w (t # ts) =
     (case runFrameTask w t of
        Returned w' \<Rightarrow> runFrameTasks w' ts
      | Thrown e w' \<Rightarrow> runFrameTasks (w'\<lparr>console := console w' @ [''Uncaught error'']\<rparr>) ts)"

definition runAnimationFrame :: "world \<Rightarrow> world" where
  "runAnimationFrame w = runFrameTasks (w\<lparr>frames := []\<rparr>) (frames w)"

subsection \<open>The moves as the claims word them\<close>

text \<open>
  From the words of the spec, to compare \<open>_moveViews\<close> with: one view taken from
  the head of the rendered set and put at its tail, bound to the index after the
  index of the last rendered view; and the views of a list bound to the indices
  that follow a given last index.
\<close>

definition moveHeadToTail :: "view list \<Rightarrow> view list" where
  "moveHeadToTail vs =
     (case vs of
        [] \<Rightarrow> []
      | v # rest \<Rightarrow> rest @ [v\<lparr>view_index := view_index (last vs) + 1\<rparr>])"

definition rebound :: "view list \<Rightarrow> int \<Rightarrow> view list" where
  "rebound vs l = map2 (\<lambda>v k. v\<lparr>view_index := l + 1 + int k\<rparr>) vs [0..<length vs]"

subsection \<open>Concrete inputs\<close>

text \<open>
  The repeat as the constructor and the field initialisers leave it, before it is
  bound and attached.
\<close>

definition no_info :: scroller_info where
  "no_info = \<lparr>scrollHeight = 0, scrollTop = 0, height = 0\<rparr>"

definition initial_repeat :: repeat where
  "initial_repeat =
     \<lparr>first = 0, viewsLength = 0, topBufferHeight = 0, bottomBufferHeight = 0,
      isAttached = False, ticking = False, fixedHeightContainer = False, isAtTop = True,
      calledGetMore = False, skipNextScrollHandle = False, handlingMutations = False,
      ignoreMutation = False, isOneTime = False, items = SrcNull, scope = None,
      children = [], itemHeight = 0, distanceToTop = 0, elementsInView = 0,
      edgeDistance = 5, currScrollerInfo = no_info, prevScrollerInfo = no_info,
      strategy = None, collectionObserver = None, scrollListener = False,
      scrollerObserved = False, sizeInterval = False, calcDistanceToTopInterval = False\<rparr>"

definition world_of :: "repeat \<Rightarrow> world" where
  "world_of r = \<lparr>rep = r, microTasks = [], frames = [], console = [], calls = [], thens = []\<rparr>"

text \<open>A view bound to an index, with no \<open>infinite-scroll-next\<close> attribute.\<close>

definition plain_view :: "nat \<Rightarrow> int \<Rightarrow> view" where
  "plain_view n i =
     \<lparr>view_id = n, view_index = i, scroll_next_instruction = None,
      scroll_next_attribute = None\<rparr>"

text \<open>
  The scenario of the spec: 1000 items of height 20 in a viewport of height 400,
  so 20 items fill the viewport; the views \<open>0..19\<close> are rendered, the edge
  threshold is 5, and the strategy of the spec is the strategy in use. The scroller
  holds the list and 40 pixels below it.
\<close>

definition snapshot :: "int \<Rightarrow> scroller_info" where
  "snapshot y = \<lparr>scrollHeight = 20040, scrollTop = y, height = 400\<rparr>"

definition no_handlers :: scope where
  "no_handlers = \<lparr>bindingContext = (\<lambda>n. JSUndefined), scrollContext = None\<rparr>"

definition scenario_repeat :: repeat where
  "scenario_repeat =
     initial_repeat
       \<lparr>viewsLength := 20, bottomBufferHeight := 19600, isAttached := True,
        fixedHeightContainer := True, items := SrcArray [0..<1000],
        scope := Some no_handlers,
        children := map (\<lambda>k. plain_view k (int k)) [0..<20],
        itemHeight := 20, elementsInView := 20,
        currScrollerInfo := snapshot 0, prevScrollerInfo := snapshot 0,
        strategy := Some 0, collectionObserver := Some HandleCollectionMutated,
        scrollListener := True\<rparr>"

definition spec_impl :: "nat \<Rightarrow> scroll_strategy" where
  "spec_impl k = spec_strategy"

text \<open>
  The same list with 25 rendered views: the 20 that fill the viewport and a margin
  of 5.
\<close>

definition margin_repeat :: repeat where
  "margin_repeat =
     scenario_repeat
       \<lparr>viewsLength := 25, bottomBufferHeight := 19500,
        children := map (\<lambda>k. plain_view k (int k)) [0..<25]\<rparr>"

text \<open>The same list with 40 rendered views, after a scroll event at 100.\<close>

definition wide_repeat :: repeat where
  "wide_repeat =
     scenario_repeat
       \<lparr>viewsLength := 40, bottomBufferHeight := 19200,
        children := map (\<lambda>k. plain_view k (int k)) [0..<40],
        currScrollerInfo := snapshot 100\<rparr>"

text \<open>
  The same list scrolled to its end: the views \<open>980..999\<close> are rendered, each with
  the attribute \<open>infinite-scroll-next="loadMore"\<close>, and \<open>loadMore\<close> of the binding
  context returns a promise.
\<close>

definition loading_view :: "nat \<Rightarrow> int \<Rightarrow> view" where
  "loading_view n i =
     \<lparr>view_id = n, view_index = i, scroll_next_instruction = Some AttrString,
      scroll_next_attribute = Some ''loadMore''\<rparr>"

definition load_more_scope :: scope where
  "load_more_scope =
     \<lparr>bindingContext =
        (\<lambda>n. if n = ''loadMore'' then JSFunction (\<lambda>i b t. Deferred 7) else JSUndefined),
      scrollContext = None\<rparr>"

definition bottom_repeat :: repeat where
  "bottom_repeat =
     scenario_repeat
       \<lparr>first := 980, topBufferHeight := 19600, bottomBufferHeight := 0,
        scope := Some load_more_scope,
        children := map (\<lambda>k. loading_view k (int k + 980)) [0..<20],
        currScrollerInfo := snapshot 19600\<rparr>"

text \<open>
  The scenario after a scroll event at 100 whose computation is still pending,
  followed by a push of one item that \<open>handleCollectionMutated\<close> has handled.
\<close>

definition mutated_repeat :: repeat where
  "mutated_repeat =
     scenario_repeat
       \<lparr>currScrollerInfo := snapshot 100, ticking := True, handlingMutations := True,
        items := SrcArray [0..<1001]\<rparr>"

text \<open>
  A strategy locator that knows arrays and \<open>null\<close> only, and a collection strategy
  that observes arrays, keeps the window on a new instance and takes the new
  collection on a mutation.
\<close>

definition array_locator :: "source \<Rightarrow> nat option" where
  "array_locator s = (case s of SrcArray xs \<Rightarrow> Some 0 | SrcNull \<Rightarrow> Some 1 | SrcOther \<Rightarrow> None)"

definition sample_collection_strategy :: collection_strategy where
  "sample_collection_strategy =
     \<lparr>getCollectionObserver = (\<lambda>s. case s of SrcArray xs \<Rightarrow> True | _ \<Rightarrow> False),
      initCalculation =
        (\<lambda>r s. (\<lparr>sig_reset = False, sig_has_sizing = True, sig_observe_scroller = True\<rparr>, r)),
      instanceChanged = (\<lambda>r s i. r),
      instanceMutated = (\<lambda>r s changes. r\<lparr>items := s\<rparr>)\<rparr>"

definition sample_cimpl :: "nat \<Rightarrow> collection_strategy" where
  "sample_cimpl k = sample_collection_strategy"

text \<open>
  The window state the claims name: first index, views length, buffer heights,
  item height, and the rendered views.
\<close>

definition windowState :: "repeat \<Rightarrow> int \<times> int \<times> int \<times> int \<times> int \<times> view list" where
  "windowState r =
     (first r, viewsLength r, topBufferHeight r, bottomBufferHeight r, itemHeight r,
      children r)"

subsection \<open>Views of the slot: results\<close>

lemma lastView_nonempty:
  "children r \<noteq> [] \<Longrightarrow> lastView r = Some (last (children r))"
  by (cases "children r" rule: rev_cases)
     (simp_all add: lastView_def view_def viewCount_def nth_append)

lemma firstView_nonempty:
  "children r \<noteq> [] \<Longrightarrow> firstView r = Some (hd (children r))"
  by (cases "children r") (simp_all add: firstView_def view_def)

text \<open>
  C10. For every integer index, \<open>view\<close> returns \<open>null\<close> exactly when the index is
  negative or at least \<open>viewCount()\<close>, and returns the child at that position
  otherwise (no read out of range). With no views, \<open>_firstViewIndex()\<close> and
  \<open>_lastViewIndex()\<close> are both \<open>-1\<close>, so the old range of the scroll handler,
  \<open>(_first, _lastViewIndex())\<close>, is defined on an empty slot.
\<close>

theorem view_null_iff_out_of_range:
  "(view r i = None) = (i < 0 \<or> i \<ge> viewCount r)
   \<and> (0 \<le> i \<and> i < viewCount r \<longrightarrow>
        nat i < length (children r) \<and> view r i = Some (children r ! nat i))
   \<and> (children r = [] \<longrightarrow> firstViewIndex r = - 1 \<and> lastViewIndex r = - 1)"
  by (auto simp: view_def viewCount_def firstViewIndex_def lastViewIndex_def
      firstView_def lastView_def)

theorem view_null_iff_out_of_range_witness:
  "view (initial_repeat\<lparr>children := [plain_view 0 7]\<rparr>) 0 = Some (plain_view 0 7)
   \<and> view (initial_repeat\<lparr>children := [plain_view 0 7]\<rparr>) 1 = None
   \<and> view (initial_repeat\<lparr>children := [plain_view 0 7]\<rparr>) (- 1) = None
   \<and> firstViewIndex initial_repeat = - 1 \<and> lastViewIndex initial_repeat = - 1"
  using view_null_iff_out_of_range [of "initial_repeat\<lparr>children := [plain_view 0 7]\<rparr>" 0]
        view_null_iff_out_of_range [of "initial_repeat\<lparr>children := [plain_view 0 7]\<rparr>" 1]
        view_null_iff_out_of_range [of "initial_repeat\<lparr>children := [plain_view 0 7]\<rparr>" "- 1"]
        view_null_iff_out_of_range [of initial_repeat 0]
  by (simp add: viewCount_def initial_repeat_def)

subsection \<open>Moving views: results\<close>

lemma moveHeadToTail_nonempty: "vs \<noteq> [] \<Longrightarrow> moveHeadToTail vs \<noteq> []"
  by (cases vs) (simp_all add: moveHeadToTail_def)

lemma moveHeadToTail_last:
  "vs \<noteq> [] \<Longrightarrow> view_index (last (moveHeadToTail vs)) = view_index (last vs) + 1"
  by (cases vs) (simp_all add: moveHeadToTail_def)

lemma moveViewsDown_step:
  assumes "children r \<noteq> []" "l = view_index (last (children r))" "c \<noteq> 0"
  shows "moveViewsDown r c l =
           moveViewsDown (r\<lparr>children := moveHeadToTail (children r)\<rparr>) (c - 1) (l + 1)"
proof -
  obtain v rest where vs: "children r = v # rest" using assms(1) by (cases "children r") auto
  have v0: "view r 0 = Some v" by (simp add: view_def vs)
  show ?thesis
    by (subst moveViewsDown.simps)
       (simp add: assms(2,3) v0 rebindAndMoveView_def moveHeadToTail_def vs)
qed

lemma moveViewsDown_funpow:
  "children r \<noteq> [] \<Longrightarrow> l = view_index (last (children r)) \<Longrightarrow>
   moveViewsDown r (int n) l =
     Some (Returned (r\<lparr>children := (moveHeadToTail ^^ n) (children r)\<rparr>))"
proof (induction n arbitrary: r l)
  case 0
  show ?case by (subst moveViewsDown.simps) simp
next
  case (Suc n)
  let ?r = "r\<lparr>children := moveHeadToTail (children r)\<rparr>"
  have "moveViewsDown r (int (Suc n)) l = moveViewsDown ?r (int n) (l + 1)"
    using moveViewsDown_step [OF Suc.prems, of "int (Suc n)"] by simp
  also have "\<dots> = Some (Returned (?r\<lparr>children := (moveHeadToTail ^^ n) (children ?r)\<rparr>))"
    by (rule Suc.IH) (simp_all add: moveHeadToTail_nonempty moveHeadToTail_last Suc.prems)
  finally show ?case by (simp add: funpow_swap1)
qed

lemma moveHeadToTail_funpow_closed:
  "n \<le> length vs \<Longrightarrow> vs \<noteq> [] \<Longrightarrow>
   (moveHeadToTail ^^ n) vs = drop n vs @ rebound (take n vs) (view_index (last vs))"
proof (induction n)
  case 0
  show ?case by (simp add: rebound_def)
next
  case (Suc n)
  then have n: "n < length vs" by simp
  have d: "drop n vs = vs ! n # drop (Suc n) vs" using n by (simp add: Cons_nth_drop_Suc)
  have t: "take (Suc n) vs = take n vs @ [vs ! n]" using n by (simp add: take_Suc_conv_app_nth)
  have lst: "view_index (last (drop n vs @ rebound (take n vs) (view_index (last vs))))
               = view_index (last vs) + int n"
  proof (cases n)
    case 0
    then show ?thesis using Suc.prems by (simp add: rebound_def)
  next
    case (Suc m)
    then show ?thesis using n
      by (simp add: rebound_def t take_Suc_conv_app_nth min_def)
  qed
  let ?A = "rebound (take n vs) (view_index (last vs))"
  have r: "rebound (take (Suc n) vs) (view_index (last vs))
             = ?A @ [(vs ! n)\<lparr>view_index := view_index (last vs) + 1 + int n\<rparr>]"
    using n by (simp add: rebound_def t min_def)
  have m: "moveHeadToTail (x # xs) = xs @ [x\<lparr>view_index := view_index (last (x # xs)) + 1\<rparr>]"
    for x xs by (simp add: moveHeadToTail_def)
  have e: "drop n vs @ ?A = vs ! n # (drop (Suc n) vs @ ?A)" using d by simp
  have "(moveHeadToTail ^^ Suc n) vs = moveHeadToTail (drop n vs @ ?A)"
    using Suc by simp
  also have "\<dots> = (drop (Suc n) vs @ ?A) @
        [(vs ! n)\<lparr>view_index := view_index (last (drop n vs @ ?A)) + 1\<rparr>]"
    by (simp only: e m)
  also have "\<dots> = drop (Suc n) vs @ rebound (take (Suc n) vs) (view_index (last vs))"
    by (simp add: lst r)
  finally show ?case .
qed


lemma lastViewIndex_nonempty:
  "children r \<noteq> [] \<Longrightarrow> lastViewIndex r = view_index (last (children r))"
  by (simp add: lastViewIndex_def lastView_nonempty)

lemma moveViews_down:
  assumes "children r \<noteq> []" "0 \<le> c"
  shows "moveViews r c Down =
           Some (Returned (r\<lparr>children := (moveHeadToTail ^^ nat c) (children r)\<rparr>))"
  using moveViewsDown_funpow [OF assms(1) refl, of "nat c"] assms
  by (simp add: moveViews_def lastViewIndex_nonempty)

lemma handleScroll_scroll_down:
  assumes "isAttached (rep w)" "\<not> skipNextScrollHandle (rep w)" "truthy (items (rep w))"
    and "strategy (rep w) = Some k"
    and "getViewRange (impl k) (rep w) cur = (ns, ne)"
    and "ns > first (rep w)" "lastViewIndex (rep w) \<ge> ns" "ne > lastViewIndex (rep w)"
    and "children (rep w) \<noteq> []"
  shows "handleScroll impl w cur prev =
           Some (Returned
             (let r2 = updateBuffers (impl k)
                         ((rep w)\<lparr>children := (moveHeadToTail ^^ nat (ns - first (rep w)))
                                                (children (rep w)),
                                   first := ns\<rparr>) ns
              in getMore (w\<lparr>rep := r2\<rparr>) ns (isNearTop (impl k) r2 ns)
                   (isNearBottom (impl k) r2 ne) False))"
proof -
  have mv: "moveViews (rep w) (ns - first (rep w)) Down =
              Some (Returned ((rep w)\<lparr>children := (moveHeadToTail ^^ nat (ns - first (rep w)))
                                                   (children (rep w))\<rparr>))"
    using assms(6,9) by (intro moveViews_down) simp_all
  show ?thesis
    using assms(1-8) by (simp add: handleScroll_def Let_def mv)
qed

lemma scenario_children_nonempty: "children scenario_repeat \<noteq> []"
  by (simp add: scenario_repeat_def)

lemma scenario_last: "last (children scenario_repeat) = plain_view 19 19"
  by (simp add: scenario_repeat_def last_map)

lemma scenario_range: "spec_visibleRange scenario_repeat (snapshot 100) = (5, 24)"
  by (simp add: spec_visibleRange_def spec_itemCount_def scenario_repeat_def snapshot_def
      initial_repeat_def Let_def)

lemma scenario_moved:
  "(moveHeadToTail ^^ 5) (children scenario_repeat) =
     map (\<lambda>k. plain_view k (int k)) [5..<20] @ map (\<lambda>k. plain_view k (int k + 20)) [0..<5]"
proof -
  have "(moveHeadToTail ^^ 5) (children scenario_repeat) =
     drop 5 (children scenario_repeat) @ rebound (take 5 (children scenario_repeat))
        (view_index (last (children scenario_repeat)))"
    by (rule moveHeadToTail_funpow_closed) (simp_all add: scenario_repeat_def)
  also have "\<dots> = map (\<lambda>k. plain_view k (int k)) [5..<20] @ map (\<lambda>k. plain_view k (int k + 20)) [0..<5]"
    unfolding scenario_last
    by (simp add: scenario_repeat_def rebound_def drop_map take_map plain_view_def upt_rec [of 0 5]
        upt_rec [of "Suc _" 5] add.commute)
  finally show ?thesis .
qed


subsection \<open>Scrolling down over an overlap\<close>

lemma scenario_fields:
  "first scenario_repeat = 0" "isAttached scenario_repeat"
  "\<not> skipNextScrollHandle scenario_repeat" "truthy (items scenario_repeat)"
  "strategy scenario_repeat = Some 0" "\<not> calledGetMore scenario_repeat"
  "itemHeight scenario_repeat = 20" "viewsLength scenario_repeat = 20"
  "edgeDistance scenario_repeat = 5" "items scenario_repeat = SrcArray [0..<1000]"
  "elementsInView scenario_repeat = 20"
  by (simp_all add: scenario_repeat_def initial_repeat_def)

lemma scenario_lastViewIndex: "lastViewIndex scenario_repeat = 19"
  by (simp add: lastViewIndex_nonempty scenario_children_nonempty scenario_last plain_view_def)

lemma rep_world_of: "rep (world_of r) = r"
  by (simp add: world_of_def)

lemma scenario_scroll:
  "handleScroll spec_impl (world_of scenario_repeat) (snapshot 100) (snapshot 0) =
     Some (Returned
       ((world_of (scenario_repeat
           \<lparr>children := map (\<lambda>k. plain_view k (int k)) [5..<20] @
                         map (\<lambda>k. plain_view k (int k + 20)) [0..<5],
            first := 5, topBufferHeight := 100, bottomBufferHeight := 19500\<rparr>))
        \<lparr>frames := [ExecuteGetMore 5 True False]\<rparr>))"
proof -
  have "handleScroll spec_impl (world_of scenario_repeat) (snapshot 100) (snapshot 0) =
     Some (Returned
             (let r2 = updateBuffers (spec_impl 0)
                         ((rep (world_of scenario_repeat))\<lparr>children := (moveHeadToTail ^^ nat (5 - first (rep (world_of scenario_repeat))))
                                                (children (rep (world_of scenario_repeat))),
                                   first := 5\<rparr>) 5
              in getMore ((world_of scenario_repeat)\<lparr>rep := r2\<rparr>) 5 (isNearTop (spec_impl 0) r2 5)
                   (isNearBottom (spec_impl 0) r2 24) False))"
    by (rule handleScroll_scroll_down)
       (simp_all add: rep_world_of scenario_lastViewIndex scenario_fields spec_impl_def
          spec_strategy_def scenario_range scenario_children_nonempty)
  also have "\<dots> = Some (Returned
       ((world_of (scenario_repeat
           \<lparr>children := map (\<lambda>k. plain_view k (int k)) [5..<20] @
                         map (\<lambda>k. plain_view k (int k + 20)) [0..<5],
            first := 5, topBufferHeight := 100, bottomBufferHeight := 19500\<rparr>))
        \<lparr>frames := [ExecuteGetMore 5 True False]\<rparr>))"
    by (simp add: rep_world_of scenario_fields scenario_moved Let_def spec_impl_def
        spec_strategy_def spec_updateBuffers_def spec_isNearTop_def spec_isNearBottom_def
        spec_itemCount_def getMore_def world_of_def)
  finally show ?thesis .
qed

lemma margin_fields:
  "first margin_repeat = 0" "isAttached margin_repeat"
  "\<not> skipNextScrollHandle margin_repeat" "truthy (items margin_repeat)"
  "strategy margin_repeat = Some 0" "\<not> calledGetMore margin_repeat"
  "itemHeight margin_repeat = 20" "edgeDistance margin_repeat = 5"
  "items margin_repeat = SrcArray [0..<1000]" "elementsInView margin_repeat = 20"
  "children margin_repeat \<noteq> []"
  "last (children margin_repeat) = plain_view 24 24"
  by (simp_all add: margin_repeat_def scenario_repeat_def initial_repeat_def last_map)

lemma margin_lastViewIndex: "lastViewIndex margin_repeat = 24"
  by (simp add: lastViewIndex_nonempty margin_fields plain_view_def)

lemma margin_range: "spec_visibleRange margin_repeat (snapshot 100) = (5, 24)"
  by (simp add: spec_visibleRange_def spec_itemCount_def margin_fields snapshot_def Let_def)

text \<open>
  C1, as amended. For every scroll handling step that passes the guards of the
  handler, with a rendered view, where \<open>newStart > oldStart\<close>, \<open>oldEnd \<ge> newStart\<close>
  and \<open>newEnd > oldEnd\<close> (strictly: with \<open>newEnd = oldEnd\<close> the pinned-bottom case is
  taken first and nothing moves), the handler makes \<open>newStart - oldStart\<close> moves of a
  view from the head of the rendered set to its tail, each bound to the index after
  the last rendered index, then sets \<open>_first\<close> to \<open>newStart\<close>, has the strategy update
  the buffers and asks for more items; when the count is at most the number of
  views, the views are the old ones without the first \<open>newStart - oldStart\<close>,
  followed by these bound to the indices after the old last index. In the scenario
  of the spec (1000 items of height 20, viewport 400, views \<open>0..19\<close>, strategy of
  the spec), a scroll from 0 to 100 moves 5 views and leaves \<open>_first = 5\<close>, the
  buffers at 100 and 19500.
\<close>

theorem scroll_down_overlapping_moves_views:
  "(\<forall>impl w cur prev k ns ne.
      isAttached (rep w) \<and> \<not> skipNextScrollHandle (rep w) \<and> truthy (items (rep w))
      \<and> strategy (rep w) = Some k \<and> getViewRange (impl k) (rep w) cur = (ns, ne)
      \<and> children (rep w) \<noteq> []
      \<and> ns > first (rep w) \<and> lastViewIndex (rep w) \<ge> ns \<and> ne > lastViewIndex (rep w)
      \<longrightarrow>
      handleScroll impl w cur prev =
        Some (Returned
          (let r2 = updateBuffers (impl k)
                      ((rep w)\<lparr>children := (moveHeadToTail ^^ nat (ns - first (rep w)))
                                             (children (rep w)),
                                first := ns\<rparr>) ns
           in getMore (w\<lparr>rep := r2\<rparr>) ns (isNearTop (impl k) r2 ns)
                (isNearBottom (impl k) r2 ne) False))
      \<and> (nat (ns - first (rep w)) \<le> length (children (rep w)) \<longrightarrow>
           (moveHeadToTail ^^ nat (ns - first (rep w))) (children (rep w)) =
             drop (nat (ns - first (rep w))) (children (rep w)) @
             rebound (take (nat (ns - first (rep w))) (children (rep w)))
               (lastViewIndex (rep w))))
   \<and> handleScroll spec_impl (world_of scenario_repeat) (snapshot 100) (snapshot 0) =
       Some (Returned
         ((world_of (scenario_repeat
             \<lparr>children := map (\<lambda>k. plain_view k (int k)) [5..<20] @
                           map (\<lambda>k. plain_view k (int k + 20)) [0..<5],
              first := 5, topBufferHeight := 100, bottomBufferHeight := 19500\<rparr>))
          \<lparr>frames := [ExecuteGetMore 5 True False]\<rparr>))"
proof (intro conjI allI impI)
  fix impl :: "nat \<Rightarrow> scroll_strategy" and w :: world and cur prev :: scroller_info and k ns ne
  assume h: "isAttached (rep w) \<and> \<not> skipNextScrollHandle (rep w) \<and> truthy (items (rep w))
      \<and> strategy (rep w) = Some k \<and> getViewRange (impl k) (rep w) cur = (ns, ne)
      \<and> children (rep w) \<noteq> []
      \<and> ns > first (rep w) \<and> lastViewIndex (rep w) \<ge> ns \<and> ne > lastViewIndex (rep w)"
  then show "handleScroll impl w cur prev =
        Some (Returned
          (let r2 = updateBuffers (impl k)
                      ((rep w)\<lparr>children := (moveHeadToTail ^^ nat (ns - first (rep w)))
                                             (children (rep w)),
                                first := ns\<rparr>) ns
           in getMore (w\<lparr>rep := r2\<rparr>) ns (isNearTop (impl k) r2 ns)
                (isNearBottom (impl k) r2 ne) False))"
    by (intro handleScroll_scroll_down) simp_all
  assume "nat (ns - first (rep w)) \<le> length (children (rep w))"
  then show "(moveHeadToTail ^^ nat (ns - first (rep w))) (children (rep w)) =
             drop (nat (ns - first (rep w))) (children (rep w)) @
             rebound (take (nat (ns - first (rep w))) (children (rep w)))
               (lastViewIndex (rep w))"
    using h by (simp add: moveHeadToTail_funpow_closed lastViewIndex_nonempty)
next
  show "handleScroll spec_impl (world_of scenario_repeat) (snapshot 100) (snapshot 0) =
       Some (Returned
         ((world_of (scenario_repeat
             \<lparr>children := map (\<lambda>k. plain_view k (int k)) [5..<20] @
                           map (\<lambda>k. plain_view k (int k + 20)) [0..<5],
              first := 5, topBufferHeight := 100, bottomBufferHeight := 19500\<rparr>))
          \<lparr>frames := [ExecuteGetMore 5 True False]\<rparr>))"
    by (rule scenario_scroll)
qed

theorem scroll_down_overlapping_moves_views_witness:
  "isAttached (rep (world_of scenario_repeat))
   \<and> getViewRange (spec_impl 0) (rep (world_of scenario_repeat)) (snapshot 100) = (5, 24)
   \<and> first (rep (world_of scenario_repeat)) = 0
   \<and> lastViewIndex (rep (world_of scenario_repeat)) = 19
   \<and> handleScroll spec_impl (world_of scenario_repeat) (snapshot 100) (snapshot 0) =
       Some (Returned
          (let r2 = updateBuffers (spec_impl 0)
                      (scenario_repeat\<lparr>children := (moveHeadToTail ^^ 5) (children scenario_repeat),
                                first := 5\<rparr>) 5
           in getMore ((world_of scenario_repeat)\<lparr>rep := r2\<rparr>) 5 (isNearTop (spec_impl 0) r2 5)
                (isNearBottom (spec_impl 0) r2 24) False))
   \<and> (moveHeadToTail ^^ 5) (children scenario_repeat) =
        drop 5 (children scenario_repeat) @ rebound (take 5 (children scenario_repeat)) 19"
proof -
  have "length (children scenario_repeat) = 20" by (simp add: scenario_repeat_def)
  then show ?thesis
  using scroll_down_overlapping_moves_views [THEN conjunct1, rule_format,
      of "world_of scenario_repeat" 0 spec_impl "snapshot 100" 5 24 "snapshot 0"]
  by (simp add: rep_world_of scenario_fields scenario_lastViewIndex scenario_range
      spec_impl_def spec_strategy_def scenario_children_nonempty)
qed

text \<open>
  C1, as stated, fails where \<open>newEnd = oldEnd\<close>: with the views \<open>0..24\<close> rendered, a
  scroll from 0 to 100 gives the new range \<open>(5, 24)\<close>, so \<open>newStart > oldStart\<close>,
  \<open>oldEnd \<ge> newStart\<close> and \<open>newEnd \<ge> oldEnd\<close> hold, and the handler moves no view and
  leaves \<open>_first\<close> at 0.
\<close>

theorem scroll_down_overlapping_counterexample:
  "isAttached (rep (world_of margin_repeat))
   \<and> getViewRange (spec_impl 0) (rep (world_of margin_repeat)) (snapshot 100) = (5, 24)
   \<and> 5 > first (rep (world_of margin_repeat))
   \<and> lastViewIndex (rep (world_of margin_repeat)) \<ge> 5
   \<and> 24 \<ge> lastViewIndex (rep (world_of margin_repeat))
   \<and> handleScroll spec_impl (world_of margin_repeat) (snapshot 100) (snapshot 0) =
        Some (Returned (world_of margin_repeat))
   \<and> first (rep (world_of margin_repeat)) \<noteq> 5"
  by (simp add: rep_world_of margin_fields margin_lastViewIndex margin_range spec_impl_def
      spec_strategy_def handleScroll_def Let_def spec_isNearBottom_def spec_itemCount_def)


subsection \<open>The pinned cases\<close>

lemma handleScroll_pinned:
  assumes "isAttached (rep w)" "\<not> skipNextScrollHandle (rep w)" "truthy (items (rep w))"
    and "strategy (rep w) = Some k"
    and "getViewRange (impl k) (rep w) cur = (ns, ne)"
    and "ne = lastViewIndex (rep w)"
  shows "handleScroll impl w cur prev =
           Some (Returned
             (if (first (rep w) \<le> ns \<and> isNearBottom (impl k) (rep w) ne)
                 \<or> (ns < first (rep w) \<and> isNearTop (impl k) (rep w) ns)
              then getMore w ns (isNearTop (impl k) (rep w) ns)
                     (isNearBottom (impl k) (rep w) ne) False
              else w))"
  using assms by (simp add: handleScroll_def Let_def)

lemma bottom_fields:
  "first bottom_repeat = 980" "isAttached bottom_repeat"
  "\<not> skipNextScrollHandle bottom_repeat" "truthy (items bottom_repeat)"
  "strategy bottom_repeat = Some 0" "\<not> calledGetMore bottom_repeat"
  "itemHeight bottom_repeat = 20" "edgeDistance bottom_repeat = 5"
  "items bottom_repeat = SrcArray [0..<1000]" "elementsInView bottom_repeat = 20"
  "children bottom_repeat \<noteq> []"
  "last (children bottom_repeat) = loading_view 19 999"
  "hd (children bottom_repeat) = loading_view 0 980"
  "scope bottom_repeat = Some load_more_scope"
  "\<not> ticking bottom_repeat" "\<not> handlingMutations bottom_repeat"
  by (simp_all add: bottom_repeat_def scenario_repeat_def initial_repeat_def last_map hd_map)


lemma bottom_range:
  "19600 \<le> y \<Longrightarrow> spec_visibleRange bottom_repeat (snapshot y) = (980, 999)"
proof -
  assume "19600 \<le> y"
  then have "980 \<le> y div 20" by simp
  then show ?thesis
    by (simp add: spec_visibleRange_def spec_itemCount_def bottom_fields snapshot_def Let_def)
qed




subsection \<open>An unclassified transition\<close>

lemma wide_fields:
  "first wide_repeat = 0" "isAttached wide_repeat"
  "\<not> skipNextScrollHandle wide_repeat" "truthy (items wide_repeat)"
  "strategy wide_repeat = Some 0" 
  "itemHeight wide_repeat = 20" 
  "items wide_repeat = SrcArray [0..<1000]" "elementsInView wide_repeat = 20"
  "children wide_repeat \<noteq> []"
  "last (children wide_repeat) = plain_view 39 39"
  by (simp_all add: wide_repeat_def scenario_repeat_def initial_repeat_def last_map)

lemma wide_lastViewIndex: "lastViewIndex wide_repeat = 39"
  by (simp add: lastViewIndex_nonempty wide_fields plain_view_def)

lemma wide_range: "spec_visibleRange wide_repeat (snapshot 100) = (5, 24)"
  by (simp add: spec_visibleRange_def spec_itemCount_def wide_fields snapshot_def Let_def)

text \<open>
  C6. A transition that passes the guards of the handler and matches none of the
  conditions it tests (pinned-bottom, pinned-top, overlapping down, overlapping up,
  disjoint jump) makes the handler return, not throw: it logs the warning
  \<open>Scroll intersection not handled\<close> and has the strategy remeasure the repeat;
  nothing else changes and no more items are asked for.
\<close>

theorem unclassified_warns_and_remeasures:
  assumes "isAttached (rep w)" "\<not> skipNextScrollHandle (rep w)" "truthy (items (rep w))"
    and "strategy (rep w) = Some k"
    and "getViewRange (impl k) (rep w) cur = (ns, ne)"
    and "\<not> (ns \<ge> first (rep w) \<and> lastViewIndex (rep w) = ne)"
    and "\<not> (ne = lastViewIndex (rep w) \<and> lastViewIndex (rep w) \<ge> ne)"
    and "\<not> (ns > first (rep w) \<and> lastViewIndex (rep w) \<ge> ns \<and> ne \<ge> lastViewIndex (rep w))"
    and "\<not> (first (rep w) > ns \<and> first (rep w) \<le> ne \<and> lastViewIndex (rep w) \<ge> ne)"
    and "\<not> (lastViewIndex (rep w) < ns \<or> first (rep w) > ne)"
  shows "handleScroll impl w cur prev =
           Some (Returned (w\<lparr>console := console w @ [''Scroll intersection not handled''],
                             rep := remeasure (impl k) (rep w)\<rparr>))"
  using assms by (auto simp: handleScroll_def Let_def)

theorem unclassified_warns_and_remeasures_witness:
  "isAttached (rep (world_of wide_repeat))
   \<and> getViewRange (spec_impl 0) (rep (world_of wide_repeat)) (snapshot 100) = (5, 24)
   \<and> first (rep (world_of wide_repeat)) = 0
   \<and> lastViewIndex (rep (world_of wide_repeat)) = 39
   \<and> handleScroll spec_impl (world_of wide_repeat) (snapshot 100) (snapshot 0) =
        Some (Returned ((world_of wide_repeat)
               \<lparr>console := [''Scroll intersection not handled''],
                rep := spec_remeasure wide_repeat\<rparr>))"
proof -
  let ?w = "world_of wide_repeat"
  have h1: "isAttached (rep ?w)" and h2: "\<not> skipNextScrollHandle (rep ?w)"
    and h3: "truthy (items (rep ?w))" and h4: "strategy (rep ?w) = Some 0"
    by (simp_all add: rep_world_of wide_fields)
  have h5: "getViewRange (spec_impl 0) (rep ?w) (snapshot 100) = (5, 24)"
    by (simp add: rep_world_of spec_impl_def spec_strategy_def wide_range)
  have f: "first (rep ?w) = 0" and l: "lastViewIndex (rep ?w) = 39"
    by (simp_all add: rep_world_of wide_fields wide_lastViewIndex)
  have "handleScroll spec_impl ?w (snapshot 100) (snapshot 0) =
           Some (Returned (?w\<lparr>console := console ?w @ [''Scroll intersection not handled''],
                             rep := remeasure (spec_impl 0) (rep ?w)\<rparr>))"
    by (rule unclassified_warns_and_remeasures [where impl = spec_impl and k = 0,
          OF h1 h2 h3 h4 h5]) (simp_all add: f l)
  moreover have "console ?w = []" by (simp add: world_of_def)
  moreover have "remeasure (spec_impl 0) (rep ?w) = spec_remeasure wide_repeat"
    by (simp add: rep_world_of spec_impl_def spec_strategy_def)
  ultimately show ?thesis using h1 h5 f l by simp
qed


subsection \<open>Scroll events before the micro task runs\<close>

lemma scenario_flags:
  "\<not> ticking scenario_repeat" "\<not> handlingMutations scenario_repeat"
  "currScrollerInfo scenario_repeat = snapshot 0"
  by (simp_all add: scenario_repeat_def initial_repeat_def)

text \<open>
  C4, as amended. When no scroll computation is pending and no mutation is being
  handled, a scroll event stores its snapshot as the current one, sets the guard and
  queues one computation with the pair it captured (its own snapshot and the current
  snapshot stored before it); a further scroll event that arrives before the micro
  task runs changes nothing: it captures no snapshot and queues nothing. So the
  events are coalesced into a single computation, which uses the pair of the first
  of them.
\<close>

theorem scroll_events_coalesce_on_first_snapshot:
  assumes "\<not> ticking (rep w)" "\<not> handlingMutations (rep w)"
  shows "onScroll w i1 =
           w\<lparr>rep := (rep w)\<lparr>currScrollerInfo := i1, ticking := True\<rparr>,
             microTasks := microTasks w @ [ScrollTask i1 (currScrollerInfo (rep w))]\<rparr>
         \<and> onScroll (onScroll w i1) i2 = onScroll w i1"
  using assms by (simp add: onScroll_def Let_def)

theorem scroll_events_coalesce_on_first_snapshot_witness:
  "\<not> ticking (rep (world_of scenario_repeat))
   \<and> \<not> handlingMutations (rep (world_of scenario_repeat))
   \<and> onScroll (world_of scenario_repeat) (snapshot 100) =
        (world_of scenario_repeat)
          \<lparr>rep := scenario_repeat\<lparr>currScrollerInfo := snapshot 100, ticking := True\<rparr>,
           microTasks := [ScrollTask (snapshot 100) (snapshot 0)]\<rparr>
   \<and> onScroll (onScroll (world_of scenario_repeat) (snapshot 100)) (snapshot 200) =
        onScroll (world_of scenario_repeat) (snapshot 100)"
proof -
  let ?w = "world_of scenario_repeat"
  have h: "\<not> ticking (rep ?w)" "\<not> handlingMutations (rep ?w)"
    by (simp_all add: rep_world_of scenario_flags)
  have e: "?w\<lparr>rep := (rep ?w)\<lparr>currScrollerInfo := snapshot 100, ticking := True\<rparr>,
             microTasks := microTasks ?w @ [ScrollTask (snapshot 100) (currScrollerInfo (rep ?w))]\<rparr>
           = ?w\<lparr>rep := scenario_repeat\<lparr>currScrollerInfo := snapshot 100, ticking := True\<rparr>,
                microTasks := [ScrollTask (snapshot 100) (snapshot 0)]\<rparr>"
    by (simp add: rep_world_of scenario_flags) (simp add: world_of_def)
  show ?thesis
    using scroll_events_coalesce_on_first_snapshot [OF h, of "snapshot 100" "snapshot 200"] h
    unfolding e by blast
qed

text \<open>
  C4, as stated, fails: after the events at 100 and at 200 the single queued
  computation holds the snapshot at 100, which is also the stored current snapshot;
  the most recent one, at 200, is held nowhere.
\<close>

theorem latest_snapshot_counterexample:
  "microTasks (onScroll (onScroll (world_of scenario_repeat) (snapshot 100)) (snapshot 200)) =
     [ScrollTask (snapshot 100) (snapshot 0)]
   \<and> currScrollerInfo
        (rep (onScroll (onScroll (world_of scenario_repeat) (snapshot 100)) (snapshot 200))) =
       snapshot 100
   \<and> snapshot 100 \<noteq> snapshot 200"
  by (simp add: onScroll_def Let_def rep_world_of scenario_flags)
     (simp add: world_of_def snapshot_def)

subsection \<open>Detaching with a callback pending\<close>

lemma detached_not_attached: "\<not> isAttached (rep (detached w))"
  by (simp add: detached_def Let_def removeAllViews_def resetCalculation_def
      updateBufferElements_def unsubscribeCollection_def unobserveScrollerSize_def
      split: option.split)

lemma detached_windowState: "windowState (rep (detached w)) = (0, 0, 0, 0, 0, [])"
  by (simp add: detached_def Let_def removeAllViews_def resetCalculation_def
      updateBufferElements_def unsubscribeCollection_def unobserveScrollerSize_def windowState_def
      split: option.split)

lemma runMicroTask_detached:
  "\<not> isAttached (rep w) \<Longrightarrow>
   \<exists>w'. runMicroTask impl w t = Some (Returned w') \<and> \<not> isAttached (rep w')
        \<and> windowState (rep w') = windowState (rep w)"
  by (cases t) (simp_all add: runMicroTask_def handleScroll_def windowState_def)

lemma runMicroTasks_detached:
  "\<not> isAttached (rep w) \<Longrightarrow>
   \<exists>w'. runMicroTasks impl w ts = Some (Returned w') \<and> \<not> isAttached (rep w')
        \<and> windowState (rep w') = windowState (rep w)"
proof (induction ts arbitrary: w)
  case Nil
  then show ?case by simp
next
  case (Cons t ts)
  from runMicroTask_detached [OF Cons.prems, of impl t]
  obtain w1 where w1: "runMicroTask impl w t = Some (Returned w1)" "\<not> isAttached (rep w1)"
    "windowState (rep w1) = windowState (rep w)" by blast
  from Cons.IH [OF w1(2)]
  obtain w2 where "runMicroTasks impl w1 ts = Some (Returned w2)" "\<not> isAttached (rep w2)"
    "windowState (rep w2) = windowState (rep w1)" by blast
  then show ?case using w1 by simp
qed

text \<open>
  C5. After \<open>detached()\<close> a pending scroll callback returns and leaves the window
  state as \<open>detached\<close> zeroed it: first index, views length, both buffer heights
  and item height are 0 and no view is rendered. This holds for a callback with any
  pair of snapshots, and for the whole queue of micro tasks that is pending when a
  scroll event is followed by the detach (detaching does not empty the queue).
  After \<open>detached()\<close> the repeat is not attached, the scroll listener is removed
  and no collection is observed.
\<close>

theorem pending_scroll_callback_after_detach:
  "(\<exists>w'. runMicroTask impl (detached w) (ScrollTask cur prev) = Some (Returned w')
         \<and> windowState (rep w') = (0, 0, 0, 0, 0, []))
   \<and> (\<exists>w'. flushMicroTasks impl (detached (onScroll w cur)) = Some (Returned w')
         \<and> windowState (rep w') = (0, 0, 0, 0, 0, []))
   \<and> microTasks (detached (onScroll w cur)) = microTasks (onScroll w cur)
   \<and> \<not> isAttached (rep (detached w)) \<and> \<not> scrollListener (rep (detached w))
   \<and> collectionObserver (rep (detached w)) = None"
proof (intro conjI)
  show "\<exists>w'. runMicroTask impl (detached w) (ScrollTask cur prev) = Some (Returned w')
         \<and> windowState (rep w') = (0, 0, 0, 0, 0, [])"
    using runMicroTask_detached [OF detached_not_attached, of impl w "ScrollTask cur prev"]
    by (auto simp: detached_windowState)
  let ?d = "detached (onScroll w cur)"
  have "\<not> isAttached (rep (?d\<lparr>microTasks := []\<rparr>))"
    using detached_not_attached [of "onScroll w cur"] by simp
  from runMicroTasks_detached [OF this, of impl "microTasks ?d"]
  show "\<exists>w'. flushMicroTasks impl ?d = Some (Returned w')
         \<and> windowState (rep w') = (0, 0, 0, 0, 0, [])"
    by (auto simp: flushMicroTasks_def detached_windowState)
  show "microTasks ?d = microTasks (onScroll w cur)"
    by (simp add: detached_def Let_def removeAllViews_def resetCalculation_def
      updateBufferElements_def unsubscribeCollection_def unobserveScrollerSize_def
      split: option.split)
  show "\<not> isAttached (rep (detached w))"
    by (rule detached_not_attached)
  show "\<not> scrollListener (rep (detached w))"
    by (simp add: detached_def Let_def removeAllViews_def resetCalculation_def
      updateBufferElements_def unsubscribeCollection_def unobserveScrollerSize_def
      split: option.split)
  show "collectionObserver (rep (detached w)) = None"
    by (simp add: detached_def Let_def removeAllViews_def resetCalculation_def
      updateBufferElements_def unsubscribeCollection_def unobserveScrollerSize_def
      split: option.split)
qed

subsection \<open>Scroll events while a mutation is handled\<close>

lemma sample_instanceMutated:
  "instanceMutated (sample_cimpl k) r s changes = r\<lparr>items := s\<rparr>"
  by (simp add: sample_cimpl_def sample_collection_strategy_def)

lemma mutated_fields:
  "first mutated_repeat = 0" "isAttached mutated_repeat"
  "\<not> skipNextScrollHandle mutated_repeat" "truthy (items mutated_repeat)"
  "strategy mutated_repeat = Some 0" "\<not> calledGetMore mutated_repeat"
  "itemHeight mutated_repeat = 20" "viewsLength mutated_repeat = 20"
  "edgeDistance mutated_repeat = 5" "items mutated_repeat = SrcArray [0..<1001]"
  "elementsInView mutated_repeat = 20" "handlingMutations mutated_repeat"
  "children mutated_repeat = children scenario_repeat"
  by (simp_all add: mutated_repeat_def scenario_repeat_def initial_repeat_def)

lemma mutated_lastViewIndex: "lastViewIndex mutated_repeat = 19"
  by (simp add: lastViewIndex_nonempty mutated_fields scenario_children_nonempty scenario_last
      plain_view_def)

lemma mutated_range: "spec_visibleRange mutated_repeat (snapshot 100) = (5, 24)"
  by (simp add: spec_visibleRange_def spec_itemCount_def mutated_fields snapshot_def Let_def)

lemma runMicroTask_scroll_down:
  assumes "isAttached (rep w)" "\<not> skipNextScrollHandle (rep w)" "truthy (items (rep w))"
    and "strategy (rep w) = Some k"
    and "getViewRange (impl k) (rep w) cur = (ns, ne)"
    and "ns > first (rep w)" "lastViewIndex (rep w) \<ge> ns" "ne > lastViewIndex (rep w)"
    and "children (rep w) \<noteq> []"
  shows "runMicroTask impl w (ScrollTask cur prev) =
           Some (Returned
             (let r2 = updateBuffers (impl k)
                         ((rep w)\<lparr>children := (moveHeadToTail ^^ nat (ns - first (rep w)))
                                                (children (rep w)),
                                   first := ns\<rparr>) ns;
                  w2 = getMore (w\<lparr>rep := r2\<rparr>) ns (isNearTop (impl k) r2 ns)
                         (isNearBottom (impl k) r2 ne) False
              in w2\<lparr>rep := (rep w2)\<lparr>ticking := False\<rparr>\<rparr>))"
  by (simp add: runMicroTask_def handleScroll_scroll_down [where impl = impl and k = k, OF assms]
      Let_def)

lemma mutated_pending_task:
  "runMicroTask spec_impl (world_of mutated_repeat) (ScrollTask (snapshot 100) (snapshot 0)) =
     Some (Returned
       ((world_of (mutated_repeat
           \<lparr>children := map (\<lambda>k. plain_view k (int k)) [5..<20] @
                         map (\<lambda>k. plain_view k (int k + 20)) [0..<5],
            first := 5, topBufferHeight := 100, bottomBufferHeight := 19520,
            ticking := False\<rparr>))
        \<lparr>frames := [ExecuteGetMore 5 True False]\<rparr>))"
proof -
  let ?w = "world_of mutated_repeat"
  have h: "isAttached (rep ?w)" "\<not> skipNextScrollHandle (rep ?w)" "truthy (items (rep ?w))"
    "strategy (rep ?w) = Some 0"
    by (simp_all add: rep_world_of mutated_fields)
  have g: "getViewRange (spec_impl 0) (rep ?w) (snapshot 100) = (5, 24)"
    by (simp add: rep_world_of spec_impl_def spec_strategy_def mutated_range)
  have o: "5 > first (rep ?w)" "lastViewIndex (rep ?w) \<ge> 5" "24 > lastViewIndex (rep ?w)"
    "children (rep ?w) \<noteq> []"
    by (simp_all add: rep_world_of mutated_fields mutated_lastViewIndex
        scenario_children_nonempty)
  note t = runMicroTask_scroll_down [where impl = spec_impl and k = 0 and prev = "snapshot 0",
      OF h g o]
  show ?thesis
    unfolding t
    by (simp add: rep_world_of mutated_fields scenario_moved Let_def spec_impl_def
        spec_strategy_def spec_updateBuffers_def spec_isNearTop_def spec_isNearBottom_def
        spec_itemCount_def getMore_def world_of_def)
qed

text \<open>
  C7, as amended. A scroll event that arrives while \<open>_handlingMutations\<close> is set
  queues no micro task and only clears the flag. \<open>handleCollectionMutated\<close>, unless
  mutations are ignored, sets the flag and then hands the repeat with the flag set
  to \<open>instanceMutated\<close> of the strategy; when the strategy leaves the flag set and
  no micro task is pending, the next scroll event and the run of the task queue
  after it start no scroll handling (the world is the one the mutation left, with
  the flag cleared). The guard is a guard of the scroll listener only: a scroll
  computation that is already queued runs with the flag set, and in the scroll-down
  overlapping case it moves the views, sets \<open>_first\<close> and updates the buffers as it
  does without the flag.
\<close>

theorem scroll_during_mutation_is_dropped:
  "(handlingMutations (rep w) \<longrightarrow>
      onScroll w info = w\<lparr>rep := (rep w)\<lparr>handlingMutations := False\<rparr>\<rparr>
      \<and> microTasks (onScroll w info) = microTasks w)
   \<and> (\<not> ignoreMutation (rep w) \<and> strategy (rep w) = Some k \<longrightarrow>
      handleCollectionMutated cimpl w collection changes =
        Returned (w\<lparr>rep := instanceMutated (cimpl k)
                              ((rep w)\<lparr>handlingMutations := True\<rparr>) collection changes\<rparr>)
      \<and> (handlingMutations
            (instanceMutated (cimpl k) ((rep w)\<lparr>handlingMutations := True\<rparr>) collection changes)
          \<longrightarrow> (\<exists>w'. handleCollectionMutated cimpl w collection changes = Returned w'
                 \<and> microTasks (onScroll w' info) = microTasks w
                 \<and> (microTasks w = [] \<longrightarrow>
                      flushMicroTasks impl (onScroll w' info) =
                        Some (Returned (w'\<lparr>rep := (rep w')\<lparr>handlingMutations := False\<rparr>\<rparr>))))))
   \<and> (handlingMutations (rep w) \<and> isAttached (rep w) \<and> \<not> skipNextScrollHandle (rep w)
        \<and> truthy (items (rep w)) \<and> strategy (rep w) = Some k
        \<and> getViewRange (impl k) (rep w) cur = (ns, ne) \<and> children (rep w) \<noteq> []
        \<and> ns > first (rep w) \<and> lastViewIndex (rep w) \<ge> ns \<and> ne > lastViewIndex (rep w)
      \<longrightarrow>
      runMicroTask impl w (ScrollTask cur prev) =
        Some (Returned
          (let r2 = updateBuffers (impl k)
                      ((rep w)\<lparr>children := (moveHeadToTail ^^ nat (ns - first (rep w)))
                                             (children (rep w)),
                                first := ns\<rparr>) ns;
               w2 = getMore (w\<lparr>rep := r2\<rparr>) ns (isNearTop (impl k) r2 ns)
                      (isNearBottom (impl k) r2 ne) False
           in w2\<lparr>rep := (rep w2)\<lparr>ticking := False\<rparr>\<rparr>)))"
proof (intro conjI impI)
  assume "handlingMutations (rep w)"
  then show "onScroll w info = w\<lparr>rep := (rep w)\<lparr>handlingMutations := False\<rparr>\<rparr>"
    and "microTasks (onScroll w info) = microTasks w"
    by (simp_all add: onScroll_def Let_def)
next
  let ?r = "instanceMutated (cimpl k) ((rep w)\<lparr>handlingMutations := True\<rparr>) collection changes"
  assume h: "\<not> ignoreMutation (rep w) \<and> strategy (rep w) = Some k"
  then show m: "handleCollectionMutated cimpl w collection changes = Returned (w\<lparr>rep := ?r\<rparr>)"
    by (simp add: handleCollectionMutated_def Let_def)
  assume f: "handlingMutations ?r"
  have o: "onScroll (w\<lparr>rep := ?r\<rparr>) info = w\<lparr>rep := ?r\<lparr>handlingMutations := False\<rparr>\<rparr>"
    using f by (simp add: onScroll_def Let_def)
  have fl: "flushMicroTasks impl (onScroll (w\<lparr>rep := ?r\<rparr>) info) =
          Some (Returned (w\<lparr>rep := ?r\<lparr>handlingMutations := False\<rparr>\<rparr>))"
    if e: "microTasks w = []"
  proof -
    have "w\<lparr>rep := ?r\<lparr>handlingMutations := False\<rparr>, microTasks := []\<rparr>
             = w\<lparr>rep := ?r\<lparr>handlingMutations := False\<rparr>\<rparr>"
      using e by (cases w) simp
    then show ?thesis unfolding o using e by (simp add: flushMicroTasks_def)
  qed
  have "microTasks (onScroll (w\<lparr>rep := ?r\<rparr>) info) = microTasks w"
    unfolding o by simp
  with fl
  show "\<exists>w'. handleCollectionMutated cimpl w collection changes = Returned w'
          \<and> microTasks (onScroll w' info) = microTasks w
          \<and> (microTasks w = [] \<longrightarrow>
               flushMicroTasks impl (onScroll w' info) =
                 Some (Returned (w'\<lparr>rep := (rep w')\<lparr>handlingMutations := False\<rparr>\<rparr>)))"
    unfolding m by simp
next
  assume "handlingMutations (rep w) \<and> isAttached (rep w) \<and> \<not> skipNextScrollHandle (rep w)
        \<and> truthy (items (rep w)) \<and> strategy (rep w) = Some k
        \<and> getViewRange (impl k) (rep w) cur = (ns, ne) \<and> children (rep w) \<noteq> []
        \<and> ns > first (rep w) \<and> lastViewIndex (rep w) \<ge> ns \<and> ne > lastViewIndex (rep w)"
  then show "runMicroTask impl w (ScrollTask cur prev) =
        Some (Returned
          (let r2 = updateBuffers (impl k)
                      ((rep w)\<lparr>children := (moveHeadToTail ^^ nat (ns - first (rep w)))
                                             (children (rep w)),
                                first := ns\<rparr>) ns;
               w2 = getMore (w\<lparr>rep := r2\<rparr>) ns (isNearTop (impl k) r2 ns)
                      (isNearBottom (impl k) r2 ne) False
           in w2\<lparr>rep := (rep w2)\<lparr>ticking := False\<rparr>\<rparr>))"
    by (intro runMicroTask_scroll_down) simp_all
qed

theorem scroll_during_mutation_is_dropped_witness:
  "handlingMutations (rep (world_of (scenario_repeat\<lparr>handlingMutations := True\<rparr>)))
   \<and> onScroll (world_of (scenario_repeat\<lparr>handlingMutations := True\<rparr>)) (snapshot 100) =
       world_of scenario_repeat
   \<and> \<not> ignoreMutation (rep (world_of scenario_repeat))
   \<and> strategy (rep (world_of scenario_repeat)) = Some 0
   \<and> microTasks (world_of scenario_repeat) = []
   \<and> handleCollectionMutated sample_cimpl (world_of scenario_repeat) (SrcArray [0..<1001])
        [(1000, 0, 1)] =
       Returned (world_of (scenario_repeat\<lparr>handlingMutations := True,
                                            items := SrcArray [0..<1001]\<rparr>))
   \<and> flushMicroTasks spec_impl
        (onScroll (world_of (scenario_repeat\<lparr>handlingMutations := True,
                                              items := SrcArray [0..<1001]\<rparr>)) (snapshot 100)) =
       Some (Returned (world_of (scenario_repeat\<lparr>handlingMutations := False,
                                                   items := SrcArray [0..<1001]\<rparr>)))
   \<and> handlingMutations (rep (world_of mutated_repeat))
   \<and> getViewRange (spec_impl 0) (rep (world_of mutated_repeat)) (snapshot 100) = (5, 24)
   \<and> first (rep (world_of mutated_repeat)) = 0
   \<and> lastViewIndex (rep (world_of mutated_repeat)) = 19
   \<and> runMicroTask spec_impl (world_of mutated_repeat) (ScrollTask (snapshot 100) (snapshot 0)) =
        Some (Returned
          (let r2 = updateBuffers (spec_impl 0)
                      (mutated_repeat\<lparr>children := (moveHeadToTail ^^ 5) (children mutated_repeat),
                                      first := 5\<rparr>) 5;
               w2 = getMore ((world_of mutated_repeat)\<lparr>rep := r2\<rparr>) 5
                      (isNearTop (spec_impl 0) r2 5) (isNearBottom (spec_impl 0) r2 24) False
           in w2\<lparr>rep := (rep w2)\<lparr>ticking := False\<rparr>\<rparr>))"
proof -
  let ?w = "world_of scenario_repeat"
  let ?m = "world_of (scenario_repeat\<lparr>handlingMutations := True\<rparr>)"
  let ?n = "world_of (scenario_repeat\<lparr>handlingMutations := True, items := SrcArray [0..<1001]\<rparr>)"
  let ?u = "world_of mutated_repeat"
  have a: "handlingMutations (rep ?m)" by (simp add: rep_world_of)
  have b: "\<not> ignoreMutation (rep ?w) \<and> strategy (rep ?w) = Some 0"
    by (simp add: rep_world_of scenario_repeat_def initial_repeat_def)
  have mt: "microTasks ?w = []" by (simp add: world_of_def)
  have c: "?m\<lparr>rep := (rep ?m)\<lparr>handlingMutations := False\<rparr>\<rparr> = ?w"
    by (simp add: world_of_def scenario_repeat_def initial_repeat_def)
  have d: "?w\<lparr>rep := instanceMutated (sample_cimpl 0)
                              ((rep ?w)\<lparr>handlingMutations := True\<rparr>) (SrcArray [0..<1001])
                              [(1000, 0, 1)]\<rparr> = ?n"
    by (simp add: world_of_def sample_cimpl_def sample_collection_strategy_def)
  have d': "instanceMutated (sample_cimpl 0)
                              ((rep ?w)\<lparr>handlingMutations := True\<rparr>) (SrcArray [0..<1001])
                              [(1000, 0, 1)] = rep ?n"
    by (simp add: world_of_def sample_cimpl_def sample_collection_strategy_def)
  have hn: "handlingMutations (rep ?n)" by (simp add: rep_world_of)
  have n': "?n\<lparr>rep := (rep ?n)\<lparr>handlingMutations := False\<rparr>\<rparr>
             = world_of (scenario_repeat\<lparr>handlingMutations := False,
                                         items := SrcArray [0..<1001]\<rparr>)"
    by (simp add: world_of_def)
  note T = scroll_during_mutation_is_dropped
  have p1: "onScroll ?m (snapshot 100) = ?w"
    using T [where w = ?m and info = "snapshot 100", THEN conjunct1, rule_format, OF a]
    unfolding c by blast
  have p2: "handleCollectionMutated sample_cimpl ?w (SrcArray [0..<1001]) [(1000, 0, 1)]
              = Returned ?n"
    using T [where w = ?w and k = 0 and cimpl = sample_cimpl and collection = "SrcArray [0..<1001]"
          and changes = "[(1000, 0, 1)]",
        THEN conjunct2, THEN conjunct1, rule_format, OF b]
    unfolding d by blast
  have p3: "flushMicroTasks spec_impl (onScroll ?n (snapshot 100)) =
              Some (Returned (world_of (scenario_repeat\<lparr>handlingMutations := False,
                                                          items := SrcArray [0..<1001]\<rparr>)))"
  proof -
    have "handlingMutations (instanceMutated (sample_cimpl 0)
                              ((rep ?w)\<lparr>handlingMutations := True\<rparr>) (SrcArray [0..<1001])
                              [(1000, 0, 1)])"
      unfolding d' using hn by simp
    from T [where w = ?w and k = 0 and cimpl = sample_cimpl and collection = "SrcArray [0..<1001]"
          and changes = "[(1000, 0, 1)]" and impl = spec_impl and info = "snapshot 100",
        THEN conjunct2, THEN conjunct1, rule_format, OF b, THEN conjunct2, rule_format, OF this]
    obtain w' where w': "handleCollectionMutated sample_cimpl ?w (SrcArray [0..<1001])
          [(1000, 0, 1)] = Returned w'"
      "flushMicroTasks spec_impl (onScroll w' (snapshot 100)) =
                     Some (Returned (w'\<lparr>rep := (rep w')\<lparr>handlingMutations := False\<rparr>\<rparr>))"
      using mt by blast
    from w'(1) p2 have eq: "w' = ?n" by simp
    show ?thesis using w'(2) unfolding eq n' .
  qed
  have u: "handlingMutations (rep ?u)" "first (rep ?u) = 0" "lastViewIndex (rep ?u) = 19"
    by (simp_all add: rep_world_of mutated_fields mutated_lastViewIndex)
  have g: "getViewRange (spec_impl 0) (rep ?u) (snapshot 100) = (5, 24)"
    by (simp add: rep_world_of spec_impl_def spec_strategy_def mutated_range)
  have hy: "handlingMutations (rep ?u) \<and> isAttached (rep ?u) \<and> \<not> skipNextScrollHandle (rep ?u)
        \<and> truthy (items (rep ?u)) \<and> strategy (rep ?u) = Some 0
        \<and> getViewRange (spec_impl 0) (rep ?u) (snapshot 100) = (5, 24) \<and> children (rep ?u) \<noteq> []
        \<and> 5 > first (rep ?u) \<and> lastViewIndex (rep ?u) \<ge> 5 \<and> 24 > lastViewIndex (rep ?u)"
    using g by (simp add: rep_world_of mutated_fields mutated_lastViewIndex
        scenario_children_nonempty)
  have p4: "runMicroTask spec_impl ?u (ScrollTask (snapshot 100) (snapshot 0)) =
        Some (Returned
          (let r2 = updateBuffers (spec_impl 0)
                      (mutated_repeat\<lparr>children := (moveHeadToTail ^^ 5) (children mutated_repeat),
                                      first := 5\<rparr>) 5;
               w2 = getMore (?u\<lparr>rep := r2\<rparr>) 5
                      (isNearTop (spec_impl 0) r2 5) (isNearBottom (spec_impl 0) r2 24) False
           in w2\<lparr>rep := (rep w2)\<lparr>ticking := False\<rparr>\<rparr>))"
    using T [where impl = spec_impl and k = 0 and w = ?u and cur = "snapshot 100" and ns = 5
          and ne = 24 and prev = "snapshot 0", THEN conjunct2, THEN conjunct2, rule_format, OF hy]
    by (simp add: rep_world_of mutated_fields)
  show ?thesis
    using a b mt p1 p2 p3 u g p4 by (intro conjI) simp_all
qed

text \<open>
  C7, as stated, fails for a scroll computation that is pending when the mutation
  arrives: after a scroll event at 100 and the push of one item, handled by
  \<open>handleCollectionMutated\<close> with the strategy leaving the flag set, the task queue
  runs the pending computation; it moves 5 views and sets \<open>_first\<close> to 5 while
  \<open>_handlingMutations\<close> is still set.
\<close>

theorem pending_scroll_runs_during_mutation_counterexample:
  "onScroll (world_of scenario_repeat) (snapshot 100) =
     (world_of (scenario_repeat\<lparr>currScrollerInfo := snapshot 100, ticking := True\<rparr>))
       \<lparr>microTasks := [ScrollTask (snapshot 100) (snapshot 0)]\<rparr>
   \<and> handleCollectionMutated sample_cimpl
        ((world_of (scenario_repeat\<lparr>currScrollerInfo := snapshot 100, ticking := True\<rparr>))
           \<lparr>microTasks := [ScrollTask (snapshot 100) (snapshot 0)]\<rparr>)
        (SrcArray [0..<1001]) [(1000, 0, 1)] =
       Returned ((world_of mutated_repeat)
                   \<lparr>microTasks := [ScrollTask (snapshot 100) (snapshot 0)]\<rparr>)
   \<and> flushMicroTasks spec_impl
        ((world_of mutated_repeat)\<lparr>microTasks := [ScrollTask (snapshot 100) (snapshot 0)]\<rparr>) =
       Some (Returned
         ((world_of (mutated_repeat
             \<lparr>children := map (\<lambda>k. plain_view k (int k)) [5..<20] @
                           map (\<lambda>k. plain_view k (int k + 20)) [0..<5],
              first := 5, topBufferHeight := 100, bottomBufferHeight := 19520,
              ticking := False\<rparr>))
          \<lparr>frames := [ExecuteGetMore 5 True False]\<rparr>))
   \<and> handlingMutations
        (mutated_repeat
             \<lparr>children := map (\<lambda>k. plain_view k (int k)) [5..<20] @
                           map (\<lambda>k. plain_view k (int k + 20)) [0..<5],
              first := 5, topBufferHeight := 100, bottomBufferHeight := 19520,
              ticking := False\<rparr>)"
proof (intro conjI)
  show "onScroll (world_of scenario_repeat) (snapshot 100) =
     (world_of (scenario_repeat\<lparr>currScrollerInfo := snapshot 100, ticking := True\<rparr>))
       \<lparr>microTasks := [ScrollTask (snapshot 100) (snapshot 0)]\<rparr>"
    by (simp add: onScroll_def Let_def rep_world_of scenario_flags) (simp add: world_of_def)
  show "handleCollectionMutated sample_cimpl
        ((world_of (scenario_repeat\<lparr>currScrollerInfo := snapshot 100, ticking := True\<rparr>))
           \<lparr>microTasks := [ScrollTask (snapshot 100) (snapshot 0)]\<rparr>)
        (SrcArray [0..<1001]) [(1000, 0, 1)] =
       Returned ((world_of mutated_repeat)
                   \<lparr>microTasks := [ScrollTask (snapshot 100) (snapshot 0)]\<rparr>)"
  proof -
    have i: "\<not> ignoreMutation scenario_repeat"
      by (simp add: scenario_repeat_def initial_repeat_def)
    show ?thesis
      by (simp add: handleCollectionMutated_def Let_def rep_world_of sample_instanceMutated
          scenario_fields i)
         (simp add: world_of_def mutated_repeat_def)
  qed
  have e: "(world_of mutated_repeat)\<lparr>microTasks := [ScrollTask (snapshot 100) (snapshot 0)],
             microTasks := []\<rparr> = world_of mutated_repeat"
    by (simp add: world_of_def)
  show "flushMicroTasks spec_impl
        ((world_of mutated_repeat)\<lparr>microTasks := [ScrollTask (snapshot 100) (snapshot 0)]\<rparr>) =
       Some (Returned
         ((world_of (mutated_repeat
             \<lparr>children := map (\<lambda>k. plain_view k (int k)) [5..<20] @
                           map (\<lambda>k. plain_view k (int k + 20)) [0..<5],
              first := 5, topBufferHeight := 100, bottomBufferHeight := 19520,
              ticking := False\<rparr>))
          \<lparr>frames := [ExecuteGetMore 5 True False]\<rparr>))"
  proof -
    have m: "microTasks ((world_of mutated_repeat)
               \<lparr>microTasks := [ScrollTask (snapshot 100) (snapshot 0)]\<rparr>)
             = [ScrollTask (snapshot 100) (snapshot 0)]"
      by simp
    show ?thesis
      unfolding flushMicroTasks_def
      by (simp only: e m runMicroTasks.simps mutated_pending_task option.case outcome.case)
  qed
  show "handlingMutations
        (mutated_repeat
             \<lparr>children := map (\<lambda>k. plain_view k (int k)) [5..<20] @
                           map (\<lambda>k. plain_view k (int k + 20)) [0..<5],
              first := 5, topBufferHeight := 100, bottomBufferHeight := 19520,
              ticking := False\<rparr>)"
    by (simp add: mutated_fields)
qed

subsection \<open>A source that is not iterable\<close>

text \<open>
  C8, as amended. While the repeat is bound and attached, \<open>itemsChanged\<close> throws
  when the strategy locator has no strategy for the items; the state at the throw
  is the one after \<open>_unsubscribeCollection\<close> with \<open>strategy\<close> set to \<open>null\<close>: no
  collection is observed, the window state is untouched, no size interval and no
  scroller observer is installed and no frame callback is requested. While the
  repeat is unbound or not attached, \<open>itemsChanged\<close> returns, whatever the items
  and the locator are, and its only effect is that no collection is observed any
  more.
\<close>

theorem itemsChanged_throws_without_strategy:
  "(scope (rep w) \<noteq> None \<and> isAttached (rep w) \<and> loc (items (rep w)) = None \<longrightarrow>
      itemsChanged loc cimpl inner w =
        Thrown NotIterable
          ((unsubscribeCollection w)\<lparr>rep := (rep (unsubscribeCollection w))\<lparr>strategy := None\<rparr>\<rparr>)
      \<and> (\<exists>w'. itemsChanged loc cimpl inner w = Thrown NotIterable w'
            \<and> collectionObserver (rep w') = None
            \<and> windowState (rep w') = windowState (rep w)
            \<and> sizeInterval (rep w') = sizeInterval (rep w)
            \<and> scrollerObserved (rep w') = scrollerObserved (rep w)
            \<and> frames w' = frames w))
   \<and> (scope (rep w) = None \<or> \<not> isAttached (rep w) \<longrightarrow>
      itemsChanged loc cimpl inner w = Returned (unsubscribeCollection w)
      \<and> unsubscribeCollection w = w\<lparr>rep := (rep w)\<lparr>collectionObserver := None\<rparr>\<rparr>)"
proof (intro conjI impI)
  assume h: "scope (rep w) \<noteq> None \<and> isAttached (rep w) \<and> loc (items (rep w)) = None"
  then show t: "itemsChanged loc cimpl inner w =
        Thrown NotIterable
          ((unsubscribeCollection w)\<lparr>rep := (rep (unsubscribeCollection w))\<lparr>strategy := None\<rparr>\<rparr>)"
    by (auto simp: itemsChanged_def Let_def unsubscribeCollection_def split: option.split)
  show "\<exists>w'. itemsChanged loc cimpl inner w = Thrown NotIterable w'
            \<and> collectionObserver (rep w') = None
            \<and> windowState (rep w') = windowState (rep w)
            \<and> sizeInterval (rep w') = sizeInterval (rep w)
            \<and> scrollerObserved (rep w') = scrollerObserved (rep w)
            \<and> frames w' = frames w"
    unfolding t by (auto simp: unsubscribeCollection_def windowState_def split: option.split)
next
  assume "scope (rep w) = None \<or> \<not> isAttached (rep w)"
  then show "itemsChanged loc cimpl inner w = Returned (unsubscribeCollection w)"
    by (auto simp: itemsChanged_def Let_def unsubscribeCollection_def split: option.split)
  show "unsubscribeCollection w = w\<lparr>rep := (rep w)\<lparr>collectionObserver := None\<rparr>\<rparr>"
    by (cases "collectionObserver (rep w)") (simp_all add: unsubscribeCollection_def)
qed

theorem itemsChanged_throws_without_strategy_witness:
  "scope (rep (world_of (scenario_repeat\<lparr>items := SrcOther\<rparr>))) \<noteq> None
   \<and> isAttached (rep (world_of (scenario_repeat\<lparr>items := SrcOther\<rparr>)))
   \<and> array_locator (items (rep (world_of (scenario_repeat\<lparr>items := SrcOther\<rparr>)))) = None
   \<and> itemsChanged array_locator sample_cimpl SrcNull
        (world_of (scenario_repeat\<lparr>items := SrcOther\<rparr>)) =
       Thrown NotIterable
         (world_of (scenario_repeat\<lparr>items := SrcOther, strategy := None,
                                      collectionObserver := None\<rparr>))
   \<and> scope (rep (world_of (scenario_repeat\<lparr>items := SrcOther, scope := None\<rparr>))) = None
   \<and> itemsChanged array_locator sample_cimpl SrcNull
        (world_of (scenario_repeat\<lparr>items := SrcOther, scope := None\<rparr>)) =
       Returned (world_of (scenario_repeat\<lparr>items := SrcOther, scope := None,
                                            collectionObserver := None\<rparr>))
   \<and> \<not> isAttached (rep (world_of (scenario_repeat\<lparr>items := SrcOther, isAttached := False\<rparr>)))
   \<and> itemsChanged array_locator sample_cimpl SrcNull
        (world_of (scenario_repeat\<lparr>items := SrcOther, isAttached := False\<rparr>)) =
       Returned (world_of (scenario_repeat\<lparr>items := SrcOther, isAttached := False,
                                            collectionObserver := None\<rparr>))"
proof -
  let ?w = "world_of (scenario_repeat\<lparr>items := SrcOther\<rparr>)"
  let ?u = "world_of (scenario_repeat\<lparr>items := SrcOther, scope := None\<rparr>)"
  let ?d = "world_of (scenario_repeat\<lparr>items := SrcOther, isAttached := False\<rparr>)"
  note T = itemsChanged_throws_without_strategy
      [where loc = array_locator and cimpl = sample_cimpl and inner = SrcNull]
  have h: "scope (rep ?w) \<noteq> None \<and> isAttached (rep ?w) \<and> array_locator (items (rep ?w)) = None"
    by (simp add: rep_world_of scenario_repeat_def initial_repeat_def array_locator_def)
  have e: "(unsubscribeCollection ?w)\<lparr>rep := (rep (unsubscribeCollection ?w))\<lparr>strategy := None\<rparr>\<rparr>
           = world_of (scenario_repeat\<lparr>items := SrcOther, strategy := None,
                                      collectionObserver := None\<rparr>)"
    by (simp add: unsubscribeCollection_def world_of_def scenario_repeat_def initial_repeat_def)
  have p1: "itemsChanged array_locator sample_cimpl SrcNull ?w =
       Thrown NotIterable
         (world_of (scenario_repeat\<lparr>items := SrcOther, strategy := None,
                                      collectionObserver := None\<rparr>))"
    using T [where w = ?w, THEN conjunct1, rule_format, OF h] unfolding e by blast
  have hu: "scope (rep ?u) = None" by (simp add: rep_world_of)
  have eu: "?u\<lparr>rep := (rep ?u)\<lparr>collectionObserver := None\<rparr>\<rparr>
           = world_of (scenario_repeat\<lparr>items := SrcOther, scope := None,
                                            collectionObserver := None\<rparr>)"
    by (simp add: world_of_def)
  have p2: "itemsChanged array_locator sample_cimpl SrcNull ?u =
       Returned (world_of (scenario_repeat\<lparr>items := SrcOther, scope := None,
                                            collectionObserver := None\<rparr>))"
    using T [where w = ?u, THEN conjunct2, rule_format, OF disjI1 [OF hu]] unfolding eu
    by simp
  have hd: "\<not> isAttached (rep ?d)" by (simp add: rep_world_of)
  have ed: "?d\<lparr>rep := (rep ?d)\<lparr>collectionObserver := None\<rparr>\<rparr>
           = world_of (scenario_repeat\<lparr>items := SrcOther, isAttached := False,
                                            collectionObserver := None\<rparr>)"
    by (simp add: world_of_def)
  have p3: "itemsChanged array_locator sample_cimpl SrcNull ?d =
       Returned (world_of (scenario_repeat\<lparr>items := SrcOther, isAttached := False,
                                            collectionObserver := None\<rparr>))"
    using T [where w = ?d, THEN conjunct2, rule_format, OF disjI2 [OF hd]] unfolding ed
    by simp
  show ?thesis using h p1 hu p2 hd p3 by blast
qed

text \<open>
  C8, as stated, fails on a repeat that is bound but not attached: with items for
  which the locator has no strategy, \<open>itemsChanged\<close> returns at its guard and does
  not throw.
\<close>

theorem itemsChanged_detached_counterexample:
  "array_locator (items (initial_repeat\<lparr>items := SrcOther, scope := Some no_handlers\<rparr>)) = None
   \<and> itemsChanged array_locator sample_cimpl SrcNull
        (world_of (initial_repeat\<lparr>items := SrcOther, scope := Some no_handlers\<rparr>)) =
       Returned (world_of (initial_repeat\<lparr>items := SrcOther, scope := Some no_handlers\<rparr>))"
  by (simp add: itemsChanged_def Let_def unsubscribeCollection_def rep_world_of
      initial_repeat_def array_locator_def)

subsection \<open>Invoking the handler\<close>

lemma firstView_calledGetMore: "firstView (r\<lparr>calledGetMore := b\<rparr>) = firstView r"
  by (simp add: firstView_def view_def)

lemma bottom_firstView: "firstView bottom_repeat = Some (loading_view 0 980)"
  by (simp add: firstView_nonempty bottom_fields)

text \<open>
  C9. With a first view and a bound scope: when the attribute is a string naming a
  function of the binding context, \<open>executeGetMore\<close> calls that function with the
  positional arguments \<open>(topIndex, isNearBottom, isNearTop)\<close>; when it is a binding
  with a source expression, it evaluates the expression against the scope. In both
  cases the override context holds
  \<open>$scrollContext = { topIndex, isAtBottom, isAtTop }\<close> at the invocation and after
  it.
\<close>

theorem scroll_next_invocation:
  assumes "firstView (rep w) = Some v" "scope (rep w) = Some sc"
  shows "(scroll_next_instruction v = Some AttrString
          \<and> scroll_next_attribute v = Some name \<and> bindingContext sc name = JSFunction f \<longrightarrow>
          (\<exists>w'. executeGetMore w topIndex nearTop nearBottom = Returned w'
             \<and> calls w' = calls w @
                 [FunctionCall name topIndex nearBottom nearTop
                    (Some \<lparr>ctx_topIndex = topIndex, ctx_isAtBottom = nearBottom,
                           ctx_isAtTop = nearTop\<rparr>)]
             \<and> scope (rep w') =
                 Some (sc\<lparr>scrollContext :=
                   Some \<lparr>ctx_topIndex = topIndex, ctx_isAtBottom = nearBottom,
                         ctx_isAtTop = nearTop\<rparr>\<rparr>)))
       \<and> (scroll_next_instruction v = Some (AttrBinding (Some e)) \<longrightarrow>
          (\<exists>w'. executeGetMore w topIndex nearTop nearBottom = Returned w'
             \<and> calls w' = calls w @
                 [ExpressionEval e
                    (Some \<lparr>ctx_topIndex = topIndex, ctx_isAtBottom = nearBottom,
                           ctx_isAtTop = nearTop\<rparr>)]
             \<and> scope (rep w') =
                 Some (sc\<lparr>scrollContext :=
                   Some \<lparr>ctx_topIndex = topIndex, ctx_isAtBottom = nearBottom,
                         ctx_isAtTop = nearTop\<rparr>\<rparr>)))"
  using assms
  by (auto simp: executeGetMore_def Let_def firstView_calledGetMore split: call_result.split)

theorem scroll_next_invocation_witness:
  "firstView (rep (world_of bottom_repeat)) = Some (loading_view 0 980)
   \<and> scope (rep (world_of bottom_repeat)) = Some load_more_scope
   \<and> scroll_next_instruction (loading_view 0 980) = Some AttrString
   \<and> scroll_next_attribute (loading_view 0 980) = Some ''loadMore''
   \<and> bindingContext load_more_scope ''loadMore'' = JSFunction (\<lambda>i b t. Deferred 7)
   \<and> (\<exists>w'. executeGetMore (world_of bottom_repeat) 980 False True = Returned w'
         \<and> calls w' =
             [FunctionCall ''loadMore'' 980 True False
                (Some \<lparr>ctx_topIndex = 980, ctx_isAtBottom = True, ctx_isAtTop = False\<rparr>)])
   \<and> firstView (rep (world_of (bottom_repeat
        \<lparr>children := [(loading_view 0 980)\<lparr>scroll_next_instruction :=
                         Some (AttrBinding (Some 7))\<rparr>]\<rparr>)))
       = Some ((loading_view 0 980)\<lparr>scroll_next_instruction := Some (AttrBinding (Some 7))\<rparr>)
   \<and> (\<exists>w'. executeGetMore (world_of (bottom_repeat
        \<lparr>children := [(loading_view 0 980)\<lparr>scroll_next_instruction :=
                         Some (AttrBinding (Some 7))\<rparr>]\<rparr>)) 980 False True = Returned w'
         \<and> calls w' =
             [ExpressionEval 7
                (Some \<lparr>ctx_topIndex = 980, ctx_isAtBottom = True, ctx_isAtTop = False\<rparr>)])"
proof -
  let ?w = "world_of bottom_repeat"
  let ?v = "(loading_view 0 980)\<lparr>scroll_next_instruction := Some (AttrBinding (Some 7))\<rparr>"
  let ?w2 = "world_of (bottom_repeat\<lparr>children := [?v]\<rparr>)"
  have h: "firstView (rep ?w) = Some (loading_view 0 980)" "scope (rep ?w) = Some load_more_scope"
    by (simp_all add: rep_world_of bottom_firstView bottom_fields)
  have g: "scroll_next_instruction (loading_view 0 980) = Some AttrString"
    "scroll_next_attribute (loading_view 0 980) = Some ''loadMore''"
    "bindingContext load_more_scope ''loadMore'' = JSFunction (\<lambda>i b t. Deferred 7)"
    by (simp_all add: loading_view_def load_more_scope_def)
  have h2: "firstView (rep ?w2) = Some ?v" "scope (rep ?w2) = Some load_more_scope"
    by (simp_all add: rep_world_of firstView_def view_def bottom_fields)
  have g2: "scroll_next_instruction ?v = Some (AttrBinding (Some 7))" by simp
  have c: "calls (world_of r) = []" for r by (simp add: world_of_def)
  from scroll_next_invocation [OF h, THEN conjunct1, rule_format, OF conjI [OF g(1) conjI [OF g(2,3)]],
      of 980 False True]
  have a: "\<exists>w'. executeGetMore ?w 980 False True = Returned w'
         \<and> calls w' =
             [FunctionCall ''loadMore'' 980 True False
                (Some \<lparr>ctx_topIndex = 980, ctx_isAtBottom = True, ctx_isAtTop = False\<rparr>)]"
    unfolding c by auto
  from scroll_next_invocation [OF h2, THEN conjunct2, rule_format, OF g2, of 980 False True]
  have b: "\<exists>w'. executeGetMore ?w2 980 False True = Returned w'
         \<and> calls w' =
             [ExpressionEval 7
                (Some \<lparr>ctx_topIndex = 980, ctx_isAtBottom = True, ctx_isAtTop = False\<rparr>)]"
    unfolding c by auto
  show ?thesis using h g h2 a b by blast
qed

subsection \<open>Two signals before the animation frame\<close>

lemma bottom_scroll_event:
  assumes "19600 \<le> y" "rep w = bottom_repeat\<lparr>currScrollerInfo := c\<rparr>" "microTasks w = []"
  shows "flushMicroTasks spec_impl (onScroll w (snapshot y)) =
           Some (Returned (w\<lparr>rep := bottom_repeat\<lparr>currScrollerInfo := snapshot y\<rparr>,
                             frames := frames w @ [ExecuteGetMore 980 False True]\<rparr>))"
proof -
  let ?r = "bottom_repeat\<lparr>currScrollerInfo := snapshot y, ticking := True\<rparr>"
  let ?w1 = "w\<lparr>rep := ?r, microTasks := [ScrollTask (snapshot y) c]\<rparr>"
  have o: "onScroll w (snapshot y) = ?w1"
    by (simp add: onScroll_def Let_def assms bottom_fields)
  have l: "lastViewIndex ?r = 999"
    by (simp add: lastViewIndex_nonempty bottom_fields loading_view_def)
  have rg: "spec_visibleRange ?r (snapshot y) = (980, 999)"
    using bottom_range [OF assms(1)]
    by (simp add: spec_visibleRange_def spec_itemCount_def)
  let ?w0 = "w\<lparr>rep := ?r, microTasks := []\<rparr>"
  have r0: "rep ?w0 = ?r" by simp
  have h1: "isAttached (rep ?w0)" and h2: "\<not> skipNextScrollHandle (rep ?w0)"
    and h3: "truthy (items (rep ?w0))" and h4: "strategy (rep ?w0) = Some 0"
    by (simp_all add: bottom_fields)
  have h5: "getViewRange (spec_impl 0) (rep ?w0) (snapshot y) = (980, 999)"
    unfolding r0 by (simp add: spec_impl_def spec_strategy_def rg)
  have h6: "999 = lastViewIndex (rep ?w0)"
    unfolding r0 l ..
  note hs = handleScroll_pinned [where impl = spec_impl and k = 0 and prev = c,
      OF h1 h2 h3 h4 h5 h6, unfolded r0]
  have nb: "isNearBottom (spec_impl 0) ?r 999" "\<not> isNearTop (spec_impl 0) ?r 980"
    by (simp_all add: spec_impl_def spec_strategy_def spec_isNearBottom_def spec_isNearTop_def
        spec_itemCount_def bottom_fields)
  have hs2: "handleScroll spec_impl ?w0 (snapshot y) c =
        Some (Returned (?w0\<lparr>frames := frames w @ [ExecuteGetMore 980 False True]\<rparr>))"
    unfolding hs using nb by (simp add: bottom_fields getMore_def)
  have t: "bottom_repeat\<lparr>currScrollerInfo := snapshot y, ticking := False\<rparr>
             = bottom_repeat\<lparr>currScrollerInfo := snapshot y\<rparr>"
    by (simp add: bottom_repeat_def scenario_repeat_def initial_repeat_def)
  have m: "w\<lparr>microTasks := []\<rparr> = w"
    using assms(3) by (cases w) simp
  have "flushMicroTasks spec_impl ?w1 =
          Some (Returned (w\<lparr>microTasks := [],
            rep := bottom_repeat\<lparr>currScrollerInfo := snapshot y, ticking := False\<rparr>,
            frames := frames w @ [ExecuteGetMore 980 False True]\<rparr>))"
    unfolding flushMicroTasks_def by (simp add: runMicroTask_def hs2)
  also have "w\<lparr>microTasks := [],
            rep := bottom_repeat\<lparr>currScrollerInfo := snapshot y, ticking := False\<rparr>,
            frames := frames w @ [ExecuteGetMore 980 False True]\<rparr>
        = w\<lparr>rep := bottom_repeat\<lparr>currScrollerInfo := snapshot y\<rparr>,
             frames := frames w @ [ExecuteGetMore 980 False True]\<rparr>"
    unfolding t by (subst (2) m [symmetric]) simp
  finally show ?thesis unfolding o .
qed


lemma executeGetMore_named_function:
  assumes "firstView (rep w) = Some v" "scope (rep w) = Some sc"
    and "scroll_next_instruction v = Some AttrString"
    and "scroll_next_attribute v = Some name" "bindingContext sc name = JSFunction f"
  shows "executeGetMore w i t b =
           Returned
             (let ctx = \<lparr>ctx_topIndex = i, ctx_isAtBottom = b, ctx_isAtTop = t\<rparr>;
                  w3 = w\<lparr>rep := (rep w)\<lparr>calledGetMore := True,
                                        scope := Some (sc\<lparr>scrollContext := Some ctx\<rparr>)\<rparr>,
                         calls := calls w @ [FunctionCall name i b t (Some ctx)]\<rparr>
              in case f i b t of
                   Plain \<Rightarrow> w3\<lparr>rep := (rep w3)\<lparr>calledGetMore := False\<rparr>\<rparr>
                 | Deferred p \<Rightarrow> w3\<lparr>thens := thens w3 @ [p]\<rparr>)"
  using assms
  by (simp add: executeGetMore_def Let_def firstView_calledGetMore split: call_result.split)

lemma bottom_executeGetMore:
  assumes "children (rep w) = children bottom_repeat" "scope (rep w) = Some sc"
    and "bindingContext sc = bindingContext load_more_scope"
  shows "executeGetMore w 980 False True =
           Returned
             (w\<lparr>rep := (rep w)\<lparr>calledGetMore := True,
                      scope := Some (sc\<lparr>scrollContext :=
                        Some \<lparr>ctx_topIndex = 980, ctx_isAtBottom = True, ctx_isAtTop = False\<rparr>\<rparr>)\<rparr>,
                calls := calls w @
                  [FunctionCall ''loadMore'' 980 True False
                     (Some \<lparr>ctx_topIndex = 980, ctx_isAtBottom = True, ctx_isAtTop = False\<rparr>)],
                thens := thens w @ [7]\<rparr>)"
proof -
  have fv: "firstView (rep w) = Some (loading_view 0 980)"
    by (simp add: firstView_nonempty assms(1) bottom_fields)
  have g: "scroll_next_instruction (loading_view 0 980) = Some AttrString"
    "scroll_next_attribute (loading_view 0 980) = Some ''loadMore''"
    "bindingContext sc ''loadMore'' = JSFunction (\<lambda>i b t. Deferred 7)"
    by (simp_all add: loading_view_def load_more_scope_def assms(3))
  show ?thesis
    unfolding executeGetMore_named_function [OF fv assms(2) g] by (simp add: Let_def)
qed

text \<open>
  What the guard of \<open>_getMore\<close> does once the flag is set, and how the flag is
  cleared when the promise of the handler completes.
\<close>

lemma getMore_in_flight: "calledGetMore (rep w) \<Longrightarrow> getMore w i t b f = w"
  by (simp add: getMore_def)

lemma promiseCompleted_clears:
  "p \<in> set (thens w) \<Longrightarrow> \<not> calledGetMore (rep (promiseCompleted w p))"
  by (simp add: promiseCompleted_def)

text \<open>
  C3 does not hold of the code. \<open>_calledGetMore\<close> is set by \<open>executeGetMore\<close>, in
  the animation frame, not by \<open>_getMore\<close> when it requests the frame. With the list
  scrolled to its end and a handler that returns a promise, two scroll events
  handled before the next animation frame both find the flag clear and both request
  \<open>executeGetMore\<close>; the frame then calls the handler twice, while the promise has
  not completed and the flag is set.
\<close>

theorem load_more_invoked_twice_before_completion:
  "flushMicroTasks spec_impl (onScroll (world_of bottom_repeat) (snapshot 19600)) =
     Some (Returned ((world_of bottom_repeat)\<lparr>frames := [ExecuteGetMore 980 False True]\<rparr>))
   \<and> flushMicroTasks spec_impl
        (onScroll ((world_of bottom_repeat)\<lparr>frames := [ExecuteGetMore 980 False True]\<rparr>)
           (snapshot 19620)) =
       Some (Returned ((world_of (bottom_repeat\<lparr>currScrollerInfo := snapshot 19620\<rparr>))
               \<lparr>frames := [ExecuteGetMore 980 False True, ExecuteGetMore 980 False True]\<rparr>))
   \<and> calls (runAnimationFrame
              ((world_of (bottom_repeat\<lparr>currScrollerInfo := snapshot 19620\<rparr>))
                 \<lparr>frames := [ExecuteGetMore 980 False True, ExecuteGetMore 980 False True]\<rparr>)) =
       [FunctionCall ''loadMore'' 980 True False
          (Some \<lparr>ctx_topIndex = 980, ctx_isAtBottom = True, ctx_isAtTop = False\<rparr>),
        FunctionCall ''loadMore'' 980 True False
          (Some \<lparr>ctx_topIndex = 980, ctx_isAtBottom = True, ctx_isAtTop = False\<rparr>)]
   \<and> thens (runAnimationFrame
              ((world_of (bottom_repeat\<lparr>currScrollerInfo := snapshot 19620\<rparr>))
                 \<lparr>frames := [ExecuteGetMore 980 False True, ExecuteGetMore 980 False True]\<rparr>)) =
       [7, 7]
   \<and> calledGetMore (rep (runAnimationFrame
              ((world_of (bottom_repeat\<lparr>currScrollerInfo := snapshot 19620\<rparr>))
                 \<lparr>frames := [ExecuteGetMore 980 False True, ExecuteGetMore 980 False True]\<rparr>)))"
proof (intro conjI)
  let ?E = "ExecuteGetMore 980 False True"
  let ?w0 = "world_of bottom_repeat"
  have c0: "bottom_repeat\<lparr>currScrollerInfo := snapshot 19600\<rparr> = bottom_repeat"
    by (simp add: bottom_repeat_def)
  have a: "flushMicroTasks spec_impl (onScroll ?w0 (snapshot 19600)) =
        Some (Returned (?w0\<lparr>rep := bottom_repeat\<lparr>currScrollerInfo := snapshot 19600\<rparr>,
                             frames := frames ?w0 @ [?E]\<rparr>))"
    by (rule bottom_scroll_event [where c = "snapshot 19600"])
       (simp_all add: rep_world_of c0, simp add: world_of_def)
  show "flushMicroTasks spec_impl (onScroll ?w0 (snapshot 19600)) =
          Some (Returned (?w0\<lparr>frames := [?E]\<rparr>))"
    unfolding a c0 by (simp add: world_of_def)
  let ?wA = "?w0\<lparr>frames := [?E]\<rparr>"
  have b: "flushMicroTasks spec_impl (onScroll ?wA (snapshot 19620)) =
        Some (Returned (?wA\<lparr>rep := bottom_repeat\<lparr>currScrollerInfo := snapshot 19620\<rparr>,
                             frames := frames ?wA @ [?E]\<rparr>))"
    by (rule bottom_scroll_event [where c = "snapshot 19600"])
       (simp_all add: rep_world_of c0, simp add: world_of_def)
  let ?wB = "(world_of (bottom_repeat\<lparr>currScrollerInfo := snapshot 19620\<rparr>))\<lparr>frames := [?E, ?E]\<rparr>"
  show "flushMicroTasks spec_impl (onScroll ?wA (snapshot 19620)) = Some (Returned ?wB)"
    unfolding b by (simp add: world_of_def)
  let ?ctx = "\<lparr>ctx_topIndex = 980, ctx_isAtBottom = True, ctx_isAtTop = False\<rparr>"
  let ?FC = "FunctionCall ''loadMore'' 980 True False (Some ?ctx)"
  let ?r1 = "bottom_repeat\<lparr>currScrollerInfo := snapshot 19620, calledGetMore := True,
        scope := Some (load_more_scope\<lparr>scrollContext := Some ?ctx\<rparr>)\<rparr>"
  let ?w1 = "(world_of ?r1)\<lparr>calls := [?FC], thens := [7]\<rparr>"
  let ?w2 = "(world_of ?r1)\<lparr>calls := [?FC, ?FC], thens := [7, 7]\<rparr>"
  let ?wC = "(world_of (bottom_repeat\<lparr>currScrollerInfo := snapshot 19620\<rparr>))\<lparr>frames := []\<rparr>"
  have e1: "executeGetMore ?wC 980 False True = Returned ?w1"
    by (subst bottom_executeGetMore [where sc = load_more_scope])
       (simp_all add: world_of_def bottom_fields)
  have e2: "executeGetMore ?w1 980 False True = Returned ?w2"
    by (subst bottom_executeGetMore
          [where sc = "load_more_scope\<lparr>scrollContext := Some ?ctx\<rparr>"])
       (simp_all add: world_of_def)
  have "runAnimationFrame ?wB = runFrameTasks ?wC [?E, ?E]"
    by (simp add: runAnimationFrame_def)
  also have "\<dots> = runFrameTasks ?w1 [?E]"
    by (simp only: runFrameTasks.simps runFrameTask_def frame_task.case e1 outcome.case)
  also have "\<dots> = ?w2"
    by (simp only: runFrameTasks.simps runFrameTask_def frame_task.case e2 outcome.case)
  finally have f: "runAnimationFrame ?wB = ?w2" .
  show "calls (runAnimationFrame ?wB) =
       [FunctionCall ''loadMore'' 980 True False
          (Some \<lparr>ctx_topIndex = 980, ctx_isAtBottom = True, ctx_isAtTop = False\<rparr>),
        FunctionCall ''loadMore'' 980 True False
          (Some \<lparr>ctx_topIndex = 980, ctx_isAtBottom = True, ctx_isAtTop = False\<rparr>)]"
    unfolding f by simp
  show "thens (runAnimationFrame ?wB) = [7, 7]"
    unfolding f by simp
  show "calledGetMore (rep (runAnimationFrame ?wB))"
    unfolding f by (simp add: rep_world_of)
qed

end
